theory Spec2Isabelle
  imports Complex_Main
begin

section \<open>Python strings\<close>

text \<open>
  A Python \<open>str\<close> is modelled as a \<open>string\<close>: a list of characters, each character a code
  point in the range U+0000..U+00FF. On that range \<open>str.lower()\<close>, \<open>str.isspace()\<close> and
  the classes \<open>\s\<close> and \<open>\d\<close> of the \<open>re\<close> module act character by character, as
  written out below.
\<close>

definition code :: "char \<Rightarrow> nat" where
  "code c = of_char c"

text \<open>\<open>str.isspace()\<close> on one character; also the class \<open>\s\<close> of a \<open>str\<close> pattern.\<close>

definition is_space :: "char \<Rightarrow> bool" where
  "is_space c = ((9 \<le> code c \<and> code c \<le> 13) \<or> (28 \<le> code c \<and> code c \<le> 32)
                 \<or> code c = 133 \<or> code c = 160)"

text \<open>The class \<open>\d\<close> and the ranges \<open>[a-z]\<close>, \<open>[A-Z]\<close>.\<close>

definition is_digit :: "char \<Rightarrow> bool" where
  "is_digit c = (48 \<le> code c \<and> code c \<le> 57)"

definition is_lower_az :: "char \<Rightarrow> bool" where
  "is_lower_az c = (97 \<le> code c \<and> code c \<le> 122)"

definition is_upper_AZ :: "char \<Rightarrow> bool" where
  "is_upper_AZ c = (65 \<le> code c \<and> code c \<le> 90)"

text \<open>\<open>str.lower()\<close>: A-Z and the capital letters of U+00C0..U+00DE (not U+00D7) move up by 32.\<close>

definition lower_char :: "char \<Rightarrow> char" where
  "lower_char c =
     (if is_upper_AZ c \<or> (192 \<le> code c \<and> code c \<le> 222 \<and> code c \<noteq> 215)
      then char_of (code c + 32) else c)"

definition lower :: "string \<Rightarrow> string" where
  "lower s = map lower_char s"

text \<open>\<open>s.strip()\<close> and \<open>s.strip(chars)\<close>, \<open>s.lstrip(chars)\<close>.\<close>

definition lstrip_by :: "(char \<Rightarrow> bool) \<Rightarrow> string \<Rightarrow> string" where
  "lstrip_by p s = dropWhile p s"

definition rstrip_by :: "(char \<Rightarrow> bool) \<Rightarrow> string \<Rightarrow> string" where
  "rstrip_by p s = rev (dropWhile p (rev s))"

definition strip_by :: "(char \<Rightarrow> bool) \<Rightarrow> string \<Rightarrow> string" where
  "strip_by p s = rstrip_by p (lstrip_by p s)"

definition strip :: "string \<Rightarrow> string" where
  "strip s = strip_by is_space s"

text \<open>\<open>s.startswith(p)\<close>, \<open>s.endswith(p)\<close> and the substring test \<open>p in s\<close>.\<close>

fun startswith :: "string \<Rightarrow> string \<Rightarrow> bool" where
  "startswith s [] = True"
| "startswith [] (p # ps) = False"
| "startswith (c # cs) (p # ps) = (c = p \<and> startswith cs ps)"

definition endswith :: "string \<Rightarrow> string \<Rightarrow> bool" where
  "endswith s p = startswith (rev s) (rev p)"

fun contains :: "string \<Rightarrow> string \<Rightarrow> bool" where
  "contains kw [] = (kw = [])"
| "contains kw (c # cs) = (startswith (c # cs) kw \<or> contains kw cs)"

section \<open>Python numbers\<close>

datatype py_error = ValueError | OverflowError

text \<open>
  A Python \<open>float\<close> is an IEEE 754 binary64 value. \<open>Finite m k\<close> stands for the number
  \<open>m * 2 ^ k\<close>; the constructor is only applied to pairs that denote a binary64 value.
\<close>

datatype pyfloat = Finite int int | PosInf | NegInf | NaN

text \<open>The number of binary digits of a positive integer.\<close>

function nbits :: "int \<Rightarrow> nat" where
  "nbits n = (if n \<le> 0 then 0 else Suc (nbits (n div 2)))"
  by pat_completeness auto
termination
  by (relation "measure nat") auto

text \<open>\<open>pow2_le e n d\<close> is the comparison \<open>2 ^ e \<le> n / d\<close>, for \<open>d > 0\<close>.\<close>

definition pow2_le :: "int \<Rightarrow> int \<Rightarrow> int \<Rightarrow> bool" where
  "pow2_le e n d = (if 0 \<le> e then d * 2 ^ nat e \<le> n else d \<le> n * 2 ^ nat (- e))"

text \<open>The integer \<open>e\<close> with \<open>2 ^ e \<le> n / d < 2 ^ (e + 1)\<close>, for \<open>n > 0\<close> and \<open>d > 0\<close>.\<close>

definition ilog2 :: "int \<Rightarrow> int \<Rightarrow> int" where
  "ilog2 n d =
     (let g = int (nbits n) - int (nbits d)
      in if pow2_le g n d then g else g - 1)"

text \<open>The integer nearest to \<open>n / d\<close>, a tie going to the even neighbour.\<close>

definition round_half_even :: "int \<Rightarrow> int \<Rightarrow> int" where
  "round_half_even n d =
     (let q = n div d; r = n mod d
      in if 2 * r < d then q else if d < 2 * r then q + 1 else if even q then q else q + 1)"

text \<open>
  Rounding the rational \<open>\<plusminus> n / d\<close> (\<open>n \<ge> 0\<close>, \<open>d > 0\<close>) to the nearest binary64 value:
  53 significant bits, the unit in the last place never below \<open>2 ^ (- 1074)\<close>, and
  infinity from \<open>2 ^ 1024\<close> on.
\<close>

definition round_double :: "bool \<Rightarrow> int \<Rightarrow> int \<Rightarrow> pyfloat" where
  "round_double neg n d =
     (if n = 0 then Finite 0 0
      else let k = max (ilog2 n d) (- 1022) - 52;
               m = (if 0 \<le> k then round_half_even n (d * 2 ^ nat k)
                    else round_half_even (n * 2 ^ nat (- k)) d)
           in if m \<noteq> 0 \<and> (1024 < k \<or> 2 ^ nat (1024 - k) \<le> m)
              then (if neg then NegInf else PosInf)
              else Finite (if neg then - m else m) k)"

text \<open>\<open>f * 1000\<close> for a float \<open>f\<close> and the integer literal: the product, rounded.\<close>

definition float_mul_int :: "pyfloat \<Rightarrow> int \<Rightarrow> pyfloat" where
  "float_mul_int f c =
     (case f of
        Finite m k \<Rightarrow>
          (let p = m * c
           in if 0 \<le> k then round_double (p < 0) (\<bar>p\<bar> * 2 ^ nat k) 1
              else round_double (p < 0) \<bar>p\<bar> (2 ^ nat (- k)))
      | _ \<Rightarrow> f)"

text \<open>
  \<open>int(f)\<close>: truncation towards zero; infinity raises \<open>OverflowError\<close>, not-a-number
  raises \<open>ValueError\<close>.
\<close>

definition int_of_float :: "pyfloat \<Rightarrow> py_error + int" where
  "int_of_float f =
     (case f of
        Finite m k \<Rightarrow>
          Inr (if 0 \<le> k then m * 2 ^ nat k
               else if 0 \<le> m then m div 2 ^ nat (- k) else - ((- m) div 2 ^ nat (- k)))
      | PosInf \<Rightarrow> Inl OverflowError
      | NegInf \<Rightarrow> Inl OverflowError
      | NaN \<Rightarrow> Inl ValueError)"

definition digit_val :: "char \<Rightarrow> int" where
  "digit_val c = int (code c) - 48"

fun digits_us :: "string \<Rightarrow> int list \<times> string" where
  "digits_us [] = ([], [])"
| "digits_us (c # cs) =
     (if is_digit c then (let (ds, r) = digits_us cs in (digit_val c # ds, r))
      else if c = CHR ''_'' then
        (case cs of
           [] \<Rightarrow> ([], c # cs)
         | d # r \<Rightarrow>
             if is_digit d then (let (ds, r') = digits_us r in (digit_val d # ds, r'))
             else ([], c # cs))
      else ([], c # cs))"

definition digitpart :: "string \<Rightarrow> (int list \<times> string) option" where
  "digitpart s =
     (case s of
        [] \<Rightarrow> None
      | c # cs \<Rightarrow> if is_digit c then (let (ds, r) = digits_us cs in Some (digit_val c # ds, r))
                 else None)"

definition decimal :: "int list \<Rightarrow> int" where
  "decimal ds = foldl (\<lambda>a d. 10 * a + d) 0 ds"

text \<open>
  \<open>int(s)\<close> and \<open>float(s)\<close> skip white space at both ends of the string; for them
  the characters U+001C..U+001F are not white space.
\<close>

definition is_space_num :: "char \<Rightarrow> bool" where
  "is_space_num c = ((9 \<le> code c \<and> code c \<le> 13) \<or> code c = 32 \<or> code c = 133 \<or> code c = 160)"

definition strip_num :: "string \<Rightarrow> string" where
  "strip_num s = strip_by is_space_num s"

definition take_sign :: "string \<Rightarrow> bool \<times> string" where
  "take_sign s =
     (case s of
        [] \<Rightarrow> (False, [])
      | c # cs \<Rightarrow> if c = CHR ''-'' then (True, cs) else if c = CHR ''+'' then (False, cs)
                 else (False, c # cs))"

text \<open>
  \<open>int(s)\<close> for a string: white space around, a sign, then digits with single
  underscores between them. With the interpreter's default limit a number of more than
  4300 digits is refused with \<open>ValueError\<close>; the limit counts the digits, leading zeros
  included, and not the sign or the underscores.
\<close>

definition int_max_str_digits :: int where
  "int_max_str_digits = 4300"

definition py_int :: "string \<Rightarrow> py_error + int" where
  "py_int s =
     (let (neg, r) = take_sign (strip_num s)
      in case digitpart r of
           Some (ds, []) \<Rightarrow>
             if int_max_str_digits < int (length ds) then Inl ValueError
             else Inr (if neg then - decimal ds else decimal ds)
         | _ \<Rightarrow> Inl ValueError)"

definition exponent :: "string \<Rightarrow> int option" where
  "exponent r =
     (case r of
        [] \<Rightarrow> Some 0
      | c # cs \<Rightarrow>
          if c = CHR ''e'' \<or> c = CHR ''E'' then
            (let (neg, r') = take_sign cs
             in case digitpart r' of
                  Some (ds, []) \<Rightarrow> Some (if neg then - decimal ds else decimal ds)
                | _ \<Rightarrow> None)
          else None)"

text \<open>
  The digits before the exponent: \<open>digitpart ["." [digitpart]]\<close> or \<open>"." digitpart\<close>. The
  result is the digits read, the number of them after the point, and the rest.
\<close>

definition mantissa :: "string \<Rightarrow> (int \<times> nat \<times> string) option" where
  "mantissa r =
     (case digitpart r of
        Some (ip, r1) \<Rightarrow>
          (case r1 of
             c # r2 \<Rightarrow>
               if c = CHR ''.'' then
                 (case digitpart r2 of
                    Some (fp, r3) \<Rightarrow> Some (decimal (ip @ fp), length fp, r3)
                  | None \<Rightarrow> Some (decimal ip, 0, r2))
               else Some (decimal ip, 0, r1)
           | [] \<Rightarrow> Some (decimal ip, 0, r1))
      | None \<Rightarrow>
          (case r of
             c # r2 \<Rightarrow>
               if c = CHR ''.'' then
                 (case digitpart r2 of
                    Some (fp, r3) \<Rightarrow> Some (decimal fp, length fp, r3)
                  | None \<Rightarrow> None)
               else None
           | [] \<Rightarrow> None))"

text \<open>
  \<open>float(s)\<close> for a string: white space around, a sign, then \<open>inf\<close>, \<open>infinity\<close> or
  \<open>nan\<close> in any case, or a decimal number with an optional exponent, which is rounded
  to the nearest binary64 value.
\<close>

definition py_float :: "string \<Rightarrow> py_error + pyfloat" where
  "py_float s =
     (let (neg, r) = take_sign (strip_num s)
      in if lower r = ''inf'' \<or> lower r = ''infinity'' then Inr (if neg then NegInf else PosInf)
         else if lower r = ''nan'' then Inr NaN
         else case mantissa r of
                None \<Rightarrow> Inl ValueError
              | Some (m, fl, r1) \<Rightarrow>
                  (case exponent r1 of
                     None \<Rightarrow> Inl ValueError
                   | Some e \<Rightarrow>
                       (let x = e - int fl
                        in if 0 \<le> x then Inr (round_double neg (m * 10 ^ nat x) 1)
                           else Inr (round_double neg m (10 ^ nat (- x))))))"

section \<open>common.py\<close>

subsection \<open>slugify\<close>

definition is_slug_alnum :: "char \<Rightarrow> bool" where
  "is_slug_alnum c = (is_lower_az c \<or> is_digit c)"

text \<open>
  \<open>re.sub(r"[^a-z0-9]+", "-", slug)\<close>: scanning from the left, every maximal run of
  characters outside \<open>[a-z0-9]\<close> is replaced by one hyphen.
\<close>

function sub_non_alnum :: "string \<Rightarrow> string" where
  "sub_non_alnum [] = []"
| "sub_non_alnum (c # cs) =
     (if is_slug_alnum c then c # sub_non_alnum cs
      else CHR ''-'' # sub_non_alnum (dropWhile (\<lambda>d. \<not> is_slug_alnum d) cs))"
  by pat_completeness auto
termination
  by (relation "measure length") (auto simp: length_dropWhile_le le_imp_less_Suc)

definition slugify :: "string \<Rightarrow> string" where
  "slugify name0 =
     (let slug = lower name0;
          slug = sub_non_alnum slug;
          slug = strip_by (\<lambda>c. c = CHR ''-'') slug
      in take 100 slug)"

subsection \<open>categorize_by_keywords\<close>

definition VALID_CATEGORIES :: "string list" where
  "VALID_CATEGORIES =
     [''mcp-server'', ''ai-agent'', ''web3-tool'', ''defi-tool'',
      ''infra'', ''framework'', ''saas-tool'', ''api-service'', ''developer-tool'']"

text \<open>\<open>any(kw in desc for kw in kws)\<close>.\<close>

definition any_in :: "string list \<Rightarrow> string \<Rightarrow> bool" where
  "any_in kws desc = list_ex (\<lambda>kw. contains kw desc) kws"

definition ai_keywords :: "string list" where
  "ai_keywords =
     [''agent'', ''llm'', ''gpt'', ''claude'', ''openai'', ''langchain'',
      ''artificial intelligence'', ''machine-learning'', ''generative-ai'',
      ''chatbot'', ''natural-language-processing'', ''automation'']"

definition ai_topics :: "string set" where
  "ai_topics =
     {''artificial-intelligence'', ''ai'', ''machine-learning'', ''ml'',
      ''chatbot'', ''gpt'', ''llm'', ''generative-ai'', ''agent''}"

definition defi_keywords :: "string list" where
  "defi_keywords = [''defi'', ''swap'', ''yield'', ''liquidity'', ''amm'', ''dex '', ''lending'']"

definition defi_topics :: "string set" where
  "defi_topics = {''defi'', ''yield'', ''swap'', ''amm'', ''dex'', ''lending''}"

definition web3_keywords :: "string list" where
  "web3_keywords =
     [''web3'', ''blockchain'', ''ethereum'', ''solana'', ''smart contract'', ''nft'', ''crypto'']"

definition web3_topics :: "string set" where
  "web3_topics = {''web3'', ''blockchain'', ''ethereum'', ''solana'', ''crypto'', ''nft'', ''wallet''}"

definition infra_keywords :: "string list" where
  "infra_keywords =
     [''kubernetes'', '' k8s'', ''docker'', ''infrastructure'', ''monitoring'', ''observability'']"

definition devtool_topics :: "string set" where
  "devtool_topics = {''developer-tools'', ''developer'', ''api'', ''sdk'', ''open-source'', ''github''}"

definition devtool_keywords :: "string list" where
  "devtool_keywords = [''developer tool'', ''cli tool'', ''code editor'', ''devtool'']"

text \<open>
  The three locals of the function: \<open>desc\<close>, \<open>lang\<close> (\<open>(language or "").lower()\<close>) and
  \<open>topic_set\<close> (\<open>{t.lower() for t in (topics or [])}\<close>).
\<close>

definition lang_of :: "string option \<Rightarrow> string" where
  "lang_of language = lower (case language of None \<Rightarrow> [] | Some l \<Rightarrow> l)"

definition topic_set_of :: "string list option \<Rightarrow> string set" where
  "topic_set_of topics = set (map lower (case topics of None \<Rightarrow> [] | Some ts \<Rightarrow> ts))"

text \<open>The conditions of the \<open>if\<close> statements, in the order of the source.\<close>

definition rule_mcp :: "string \<Rightarrow> string set \<Rightarrow> bool" where
  "rule_mcp desc topic_set =
     (contains ''mcp'' desc \<or> contains ''model context protocol'' desc \<or> ''mcp'' \<in> topic_set)"

definition rule_ai_text :: "string \<Rightarrow> bool" where
  "rule_ai_text desc =
     (any_in ai_keywords desc \<or> contains '' ai '' desc \<or> startswith desc ''ai '')"

definition rule_ai_topic :: "string set \<Rightarrow> bool" where
  "rule_ai_topic topic_set = (topic_set \<inter> ai_topics \<noteq> {})"

definition rule_defi_text :: "string \<Rightarrow> bool" where
  "rule_defi_text desc = any_in defi_keywords desc"

definition rule_defi_topic :: "string set \<Rightarrow> bool" where
  "rule_defi_topic topic_set = (topic_set \<inter> defi_topics \<noteq> {})"

definition rule_web3_text :: "string \<Rightarrow> bool" where
  "rule_web3_text desc = any_in web3_keywords desc"

definition rule_web3_topic :: "string set \<Rightarrow> bool" where
  "rule_web3_topic topic_set = (topic_set \<inter> web3_topics \<noteq> {})"

definition rule_infra :: "string \<Rightarrow> string \<Rightarrow> bool" where
  "rule_infra desc lang = (lang = ''dockerfile'' \<or> any_in infra_keywords desc)"

definition rule_devtool_topic :: "string set \<Rightarrow> bool" where
  "rule_devtool_topic topic_set = (topic_set \<inter> devtool_topics \<noteq> {})"

definition rule_devtool_text :: "string \<Rightarrow> bool" where
  "rule_devtool_text desc = any_in devtool_keywords desc"

definition categorize_by_keywords :: "string \<Rightarrow> string list option \<Rightarrow> string option \<Rightarrow> string" where
  "categorize_by_keywords text topics language =
     (let desc = lower text;
          lang = lang_of language;
          topic_set = topic_set_of topics
      in if rule_mcp desc topic_set then ''mcp-server''
         else if rule_ai_text desc then ''ai-agent''
         else if rule_ai_topic topic_set then ''ai-agent''
         else if rule_defi_text desc then ''defi-tool''
         else if rule_defi_topic topic_set then ''defi-tool''
         else if rule_web3_text desc then ''web3-tool''
         else if rule_web3_topic topic_set then ''web3-tool''
         else if rule_infra desc lang then ''infra''
         else if rule_devtool_topic topic_set then ''developer-tool''
         else if rule_devtool_text desc then ''developer-tool''
         else ''framework'')"

definition categorize_producthunt :: "string \<Rightarrow> string list \<Rightarrow> string" where
  "categorize_producthunt tagline topics =
     (let cat = categorize_by_keywords tagline (Some topics) None
      in if cat = ''framework'' then ''saas-tool'' else cat)"

section \<open>scrape_github_trending.py\<close>

subsection \<open>parse_stars\<close>

text \<open>\<open>try: ... except ValueError: return d\<close>: any other exception passes through.\<close>

definition except_ValueError :: "py_error + int \<Rightarrow> int \<Rightarrow> py_error + int" where
  "except_ValueError r d = (case r of Inl ValueError \<Rightarrow> Inr d | _ \<Rightarrow> r)"

definition parse_stars :: "string \<Rightarrow> py_error + int" where
  "parse_stars text0 =
     (let text = filter (\<lambda>c. c \<noteq> CHR '','') (strip text0)
      in if text = [] then Inr 0
         else if endswith (lower text) ''k'' then
           except_ValueError
             (case py_float (butlast text) of
                Inl e \<Rightarrow> Inl e
              | Inr f \<Rightarrow> int_of_float (float_mul_int f 1000)) 0
         else except_ValueError (py_int text) 0)"

subsection \<open>language_to_runtime\<close>

definition language_to_runtime :: "string option \<Rightarrow> string option" where
  "language_to_runtime lang =
     (case lang of
        None \<Rightarrow> None
      | Some l \<Rightarrow>
          if l = [] then None
          else (let lang_lower = strip (lower l)
                in case map_of
                          [(''typescript'', ''node''), (''javascript'', ''node''),
                           (''python'', ''python''), (''rust'', ''rust''), (''go'', ''go'')]
                          lang_lower of
                     Some r \<Rightarrow> Some r
                   | None \<Rightarrow> Some ''other''))"

subsection \<open>Catalog records and crawl results\<close>

text \<open>
  The dictionaries appended to \<open>entries\<close>. The key \<open>runtime\<close> is only set by the GitHub
  pipeline; \<open>None\<close> stands for Python's \<open>None\<close> there and for the absent key in the other
  two pipelines.
\<close>

record entry =
  slug :: string
  name :: string
  tagline :: string
  description :: string
  category :: string
  tags :: "string list"
  sourceUrl :: string
  runtime :: "string option"
  stars :: int
  submittedBy :: string

text \<open>
  One row of the selector extraction: a field is \<open>None\<close> when the key is absent or its
  value is \<open>None\<close>, which \<open>row.get(key) or ""\<close> both turn into the empty string.
\<close>

record gh_row =
  repo_path :: "string option"
  row_description :: "string option"
  row_language :: "string option"
  stars_text :: "string option"

definition or_empty :: "string option \<Rightarrow> string" where
  "or_empty v = (case v of None \<Rightarrow> [] | Some s \<Rightarrow> s)"

text \<open>
  What \<open>crawler.arun\<close> hands back, as far as the pipelines read it. \<open>extracted_content\<close>
  is the decoded JSON array; \<open>None\<close> stands for a missing or empty string, and for
  \<open>markdown\<close> likewise.
\<close>

record crawl_result =
  success :: bool
  markdown :: "string option"
  extracted_content :: "gh_row list option"

subsection \<open>scrape\<close>

definition gh_MAX_RESULTS :: nat where
  "gh_MAX_RESULTS = 50"

definition gh_entry :: "string \<Rightarrow> gh_row \<Rightarrow> int \<Rightarrow> entry" where
  "gh_entry key row n =
     (let full_name = lstrip_by (\<lambda>c. c = CHR ''/'') key;
          desc = strip (or_empty (row_description row));
          lang = (let l = strip (or_empty (row_language row)) in if l = [] then None else Some l);
          category0 = categorize_by_keywords desc None lang
      in \<lparr> slug = slugify full_name,
           name = full_name,
           tagline = take 160 (if desc \<noteq> [] then desc else ''GitHub trending: '' @ full_name),
           description = (if desc \<noteq> [] then desc
                          else ''No description provided for '' @ full_name),
           category = category0,
           tags = [],
           sourceUrl = ''https://github.com/'' @ full_name,
           runtime = language_to_runtime lang,
           stars = n,
           submittedBy = ''crawl4ai-github-trending'' \<rparr>)"

text \<open>
  The loop \<open>for row in rows\<close> on the state \<open>(seen, entries)\<close>; it ends at the last row, at
  the \<open>break\<close>, or with the exception that \<open>parse_stars\<close> lets through. \<open>gh_key\<close> is
  the local \<open>repo_path\<close>: \<open>(row.get("repo_path") or "").strip()\<close>.
\<close>

definition gh_key :: "gh_row \<Rightarrow> string" where
  "gh_key row = strip (or_empty (repo_path row))"

fun gh_rows :: "string set \<times> entry list \<Rightarrow> gh_row list \<Rightarrow> py_error + string set \<times> entry list" where
  "gh_rows st [] = Inr st"
| "gh_rows (seen, entries) (row # rows) =
     (let key = gh_key row
      in if key = [] \<or> key \<in> seen then gh_rows (seen, entries) rows
         else case parse_stars (or_empty (stars_text row)) of
                Inl e \<Rightarrow> Inl e
              | Inr n \<Rightarrow>
                  (let seen' = insert key seen;
                       entries' = entries @ [gh_entry key row n]
                   in if gh_MAX_RESULTS \<le> length entries' then Inr (seen', entries')
                      else gh_rows (seen', entries') rows))"

text \<open>The loop \<open>for url in URLS\<close>, over the results of the fetches in that order.\<close>

fun gh_urls :: "string set \<times> entry list \<Rightarrow> crawl_result list \<Rightarrow> py_error + string set \<times> entry list" where
  "gh_urls st [] = Inr st"
| "gh_urls st (result # results) =
     (if \<not> success result then gh_urls st results
      else case extracted_content result of
             None \<Rightarrow> gh_urls st results
           | Some rows \<Rightarrow>
               (case gh_rows st rows of
                  Inl e \<Rightarrow> Inl e
                | Inr st' \<Rightarrow>
                    if gh_MAX_RESULTS \<le> length (snd st') then Inr st'
                    else gh_urls st' results))"

definition gh_URLS :: "string list" where
  "gh_URLS = [''https://github.com/trending?since=daily'',
              ''https://github.com/trending?since=weekly'']"

text \<open>\<open>scrape()\<close>, with the crawler as a function from the URL to its result.\<close>

definition gh_scrape :: "(string \<Rightarrow> crawl_result) \<Rightarrow> py_error + entry list" where
  "gh_scrape arun = map_sum id snd (gh_urls ({}, []) (map arun gh_URLS))"

subsection \<open>Notions for the statements about the run\<close>

text \<open>
  The entries built from a list of keys with their rows and star counts; the keys a list
  of rows offers (the non-empty ones); and a row whose star text \<open>parse_stars\<close> turns into
  a number.
\<close>

definition gh_built :: "(string \<times> gh_row \<times> int) list \<Rightarrow> entry list" where
  "gh_built krs = map (\<lambda>(k, r, n). gh_entry k r n) krs"

definition gh_keys :: "gh_row list \<Rightarrow> string set" where
  "gh_keys rows = set (filter (\<lambda>k. k \<noteq> []) (map gh_key rows))"

definition stars_ok :: "gh_row \<Rightarrow> bool" where
  "stars_ok row = (case parse_stars (or_empty (stars_text row)) of Inl e \<Rightarrow> False | Inr n \<Rightarrow> True)"

section \<open>Regular expressions of the extractors\<close>

text \<open>
  The patterns are matched as \<open>re\<close> matches them, written out by hand. Wherever a
  repetition is followed by something its own characters cannot start, giving back
  characters cannot help, so the longest run is the only candidate; the one place where
  the order of attempts matters is the name pattern below.
\<close>

text \<open>A literal at the start of the string: the rest after it.\<close>

fun lit :: "string \<Rightarrow> string \<Rightarrow> string option" where
  "lit [] s = Some s"
| "lit (p # ps) [] = None"
| "lit (p # ps) (c # cs) = (if p = c then lit ps cs else None)"

text \<open>A non-empty longest run of a character class at the start: the run and the rest.\<close>

definition run1 :: "(char \<Rightarrow> bool) \<Rightarrow> string \<Rightarrow> (string \<times> string) option" where
  "run1 p s = (if takeWhile p s = [] then None else Some (takeWhile p s, dropWhile p s))"

text \<open>\<open>$\<close>: the end of the string, or the position before a final newline.\<close>

definition at_end :: "string \<Rightarrow> bool" where
  "at_end s = (s = [] \<or> s = [CHR 0x0A])"

definition is_slug_char :: "char \<Rightarrow> bool" where
  "is_slug_char c = (is_lower_az c \<or> is_digit c \<or> c = CHR ''-'')"

text \<open>
  The link pattern shared by both markdown extractors up to the URL prefix:
  \<open>\[([^\]]+)\]\(prefix([a-z0-9-]+)\<close>. The result is group 1, the identifier and the rest.
\<close>

definition link_head :: "string \<Rightarrow> string \<Rightarrow> (string \<times> string \<times> string) option" where
  "link_head prefix s =
     (case lit ''['' s of
        None \<Rightarrow> None
      | Some s1 \<Rightarrow>
          (case run1 (\<lambda>c. c \<noteq> CHR '']'') s1 of
             None \<Rightarrow> None
           | Some (g1, s2) \<Rightarrow>
               (case lit (''](''  @ prefix) s2 of
                  None \<Rightarrow> None
                | Some s3 \<Rightarrow>
                    (case run1 is_slug_char s3 of
                       None \<Rightarrow> None
                     | Some (ident, s4) \<Rightarrow> Some (g1, ident, s4)))))"

section \<open>scrape_producthunt.py\<close>

subsection \<open>extract_products_from_markdown\<close>

definition ph_prefix :: string where
  "ph_prefix = ''https://www.producthunt.com/products/''"

text \<open>
  The pattern of \<open>extract_products_from_markdown\<close> at the start of the string: groups 1, 2
  and 3, and the rest after the match. After the identifier comes the optional
  \<open>(?:/reviews[^\)]*)?\<close> and the closing parenthesis.
\<close>

definition ph_match_at :: "string \<Rightarrow> ((string \<times> string \<times> string) \<times> string) option" where
  "ph_match_at s =
     (case link_head ph_prefix s of
        None \<Rightarrow> None
      | Some (g1, g3, s4) \<Rightarrow>
          (case lit '')'' (case lit ''/reviews'' s4 of
                             Some s5 \<Rightarrow> dropWhile (\<lambda>c. c \<noteq> CHR '')'') s5
                           | None \<Rightarrow> s4) of
             None \<Rightarrow> None
           | Some rest \<Rightarrow> Some ((g1, ph_prefix @ g3, g3), rest)))"

text \<open>A step of the pattern \<open>^[\d.,]+K?\s*reviews?$\<close> with \<open>re.IGNORECASE\<close>: one optional letter.\<close>

definition opt_letter :: "char \<Rightarrow> string \<Rightarrow> string" where
  "opt_letter l s = (case s of [] \<Rightarrow> [] | c # cs \<Rightarrow> if lower_char c = l then cs else c # cs)"

definition is_review_count :: "string \<Rightarrow> bool" where
  "is_review_count text =
     (case run1 (\<lambda>c. is_digit c \<or> c = CHR ''.'' \<or> c = CHR '','') text of
        None \<Rightarrow> False
      | Some (ds, r1) \<Rightarrow>
          (let r2 = dropWhile is_space (opt_letter CHR ''k'' r1)
           in lower (take 6 r2) = ''review'' \<and> at_end (opt_letter CHR ''s'' (drop 6 r2))))"

text \<open>
  The name pattern \<open>^([A-Z][^\s]+(?: [A-Z][^\s]+)*)\s+(The |A |An |[A-Z][a-z])\<close>.
  \<open>word_cap\<close> is \<open>[A-Z][^\s]+\<close>: its length and the rest. \<open>tail_ok\<close> is the part after
  group 1. \<open>split_end n s\<close> stands after \<open>n\<close> characters of group 1: it first tries one
  more repetition of \<open>(?: [A-Z][^\s]+)\<close> and everything after it, and only when that
  fails tries to end group 1 here; its result is \<open>name_split.end(1)\<close>.
\<close>

definition word_cap :: "string \<Rightarrow> (nat \<times> string) option" where
  "word_cap s =
     (case s of
        [] \<Rightarrow> None
      | c # r \<Rightarrow>
          if is_upper_AZ c then
            (case run1 (\<lambda>d. \<not> is_space d) r of
               None \<Rightarrow> None
             | Some (w, rest) \<Rightarrow> Some (Suc (length w), rest))
          else None)"

definition tail_ok :: "string \<Rightarrow> bool" where
  "tail_ok s =
     (case run1 is_space s of
        None \<Rightarrow> False
      | Some (ws, r) \<Rightarrow>
          startswith r ''The '' \<or> startswith r ''A '' \<or> startswith r ''An '' \<or>
          (case r of a # b # _ \<Rightarrow> is_upper_AZ a \<and> is_lower_az b | _ \<Rightarrow> False))"

definition next_word :: "string \<Rightarrow> (nat \<times> string) option" where
  "next_word s = (case lit '' '' s of None \<Rightarrow> None | Some r \<Rightarrow> word_cap r)"

lemma run1_length:
  "run1 p s = Some (w, rest) \<Longrightarrow> length rest \<le> length s"
  by (auto simp: run1_def length_dropWhile_le split: if_splits)

lemma lit_length:
  "lit p s = Some rest \<Longrightarrow> length rest \<le> length s"
  by (induction p s rule: lit.induct) (auto split: if_splits)

lemma word_cap_length:
  "word_cap s = Some (n, rest) \<Longrightarrow> length rest < length s"
  by (auto simp: word_cap_def split: list.splits if_splits option.splits dest!: run1_length)

lemma next_word_length:
  "next_word s = Some (n, rest) \<Longrightarrow> length rest < length s"
  by (auto simp: next_word_def split: option.splits dest!: lit_length word_cap_length)

function split_end :: "nat \<Rightarrow> string \<Rightarrow> nat option" where
  "split_end n s =
     (case next_word s of
        Some (k, rest) \<Rightarrow>
          (case split_end (n + 1 + k) rest of
             Some e \<Rightarrow> Some e
           | None \<Rightarrow> if tail_ok s then Some n else None)
      | None \<Rightarrow> if tail_ok s then Some n else None)"
  by pat_completeness auto
termination
  by (relation "measure (\<lambda>(n, s). length s)") (auto dest: next_word_length)

definition name_split :: "string \<Rightarrow> nat option" where
  "name_split text =
     (case word_cap text of None \<Rightarrow> None | Some (k, rest) \<Rightarrow> split_end k rest)"

record product =
  p_name :: string
  p_tagline :: string
  p_url :: string
  p_slug :: string

text \<open>The checks that end with \<open>continue\<close> before the duplicate test.\<close>

definition ph_noise :: "string \<Rightarrow> bool" where
  "ph_noise text =
     (is_review_count text
      \<or> lower text \<in> set [''view all'', ''see all'', ''reviews'', ''promoted'', '''']
      \<or> length text < 2 \<or> 200 < length text)"

text \<open>The dictionary entry built from a match that is kept.\<close>

definition ph_product :: "string \<times> string \<times> string \<Rightarrow> product" where
  "ph_product m =
     (case m of (g1, url, slug0) \<Rightarrow>
        (let text = strip g1;
             (name0, tagline0) =
                (case name_split text of
                   Some split_pos \<Rightarrow> (strip (take split_pos text), strip (drop split_pos text))
                 | None \<Rightarrow> (text, []));
             tagline1 = (if tagline0 = [] then ''Discovered on Product Hunt: '' @ name0
                         else tagline0)
         in \<lparr> p_name = name0, p_tagline = tagline1, p_url = url, p_slug = slug0 \<rparr>))"

text \<open>
  The body of \<open>for match in re.finditer(pattern, md)\<close>. The dictionary \<open>products\<close> is a
  list of pairs in insertion order; a key is never inserted twice.
\<close>

definition ph_step :: "(string \<times> product) list \<Rightarrow> string \<times> string \<times> string \<Rightarrow> (string \<times> product) list" where
  "ph_step products m =
     (case m of (g1, url, slug0) \<Rightarrow>
        if ph_noise (strip g1) then products
        else if slug0 \<in> fst ` set products then products
        else products @ [(slug0, ph_product m)])"

lemma ph_match_at_length:
  "ph_match_at s = Some (g, rest) \<Longrightarrow> length rest < length s"
proof -
  assume a: "ph_match_at s = Some (g, rest)"
  then obtain g1 g3 s4 where h: "link_head ph_prefix s = Some (g1, g3, s4)"
    by (auto simp: ph_match_at_def split: option.splits)
  from h have "length s4 < length s"
    by (cases s) (auto simp: link_head_def split: option.splits if_splits
        dest!: run1_length lit_length)
  moreover from a h have "length rest \<le> length s4"
    by (auto simp: ph_match_at_def split: option.splits dest!: lit_length)
       (metis le_trans length_dropWhile_le)
  ultimately show ?thesis by simp
qed

text \<open>\<open>re.finditer\<close>: the matches from left to right, the search going on after each match.\<close>

function ph_finditer :: "string \<Rightarrow> (string \<times> string \<times> string) list" where
  "ph_finditer [] = []"
| "ph_finditer (c # cs) =
     (case ph_match_at (c # cs) of
        Some (g, rest) \<Rightarrow> g # ph_finditer rest
      | None \<Rightarrow> ph_finditer cs)"
  by pat_completeness auto
termination
  by (relation "measure length") (auto dest: ph_match_at_length)

definition extract_products_from_markdown :: "string \<Rightarrow> product list" where
  "extract_products_from_markdown md = map snd (foldl ph_step [] (ph_finditer md))"

subsection \<open>Notions for the statements about the extractor\<close>




subsection \<open>scrape\<close>

definition ph_MAX_RESULTS :: nat where
  "ph_MAX_RESULTS = 100"

definition ph_URLS :: "string list" where
  "ph_URLS = [''https://www.producthunt.com/topics/artificial-intelligence'',
              ''https://www.producthunt.com/topics/developer-tools'']"

definition url_topics :: "(string \<times> string list) list" where
  "url_topics = [(''artificial-intelligence'', [''artificial-intelligence'', ''ai'']),
                 (''developer-tools'', [''developer-tools'', ''developer''])]"

text \<open>\<open>url.rstrip("/").split("/")[-1]\<close> and \<open>url_topics.get(topic_key, [])\<close>.\<close>

definition topic_key :: "string \<Rightarrow> string" where
  "topic_key url =
     rev (takeWhile (\<lambda>c. c \<noteq> CHR ''/'') (rev (rstrip_by (\<lambda>c. c = CHR ''/'') url)))"

definition topics_of_url :: "string \<Rightarrow> string list" where
  "topics_of_url url = (case map_of url_topics (topic_key url) of None \<Rightarrow> [] | Some ts \<Rightarrow> ts)"

definition ph_entry :: "product \<Rightarrow> string list \<Rightarrow> entry" where
  "ph_entry prd topics =
     \<lparr> slug = p_slug prd,
       name = p_name prd,
       tagline = take 160 (p_tagline prd),
       description = (if p_tagline prd \<noteq> [] then p_tagline prd
                      else ''Discovered on Product Hunt: '' @ p_name prd),
       category = categorize_producthunt (p_tagline prd) topics,
       tags = (if topics \<noteq> [] then topics else [''product-hunt'']),
       sourceUrl = p_url prd,
       runtime = None,
       stars = 0,
       submittedBy = ''crawl4ai-producthunt'' \<rparr>"

text \<open>The loop \<open>for prod in products\<close> on the state \<open>(seen, entries)\<close>, up to its \<open>break\<close>.\<close>

fun ph_prods :: "string set \<times> entry list \<Rightarrow> string list \<Rightarrow> product list \<Rightarrow> string set \<times> entry list" where
  "ph_prods st topics [] = st"
| "ph_prods (seen, entries) topics (prd # prds) =
     (if p_slug prd \<in> seen then ph_prods (seen, entries) topics prds
      else (let seen' = insert (p_slug prd) seen;
                entries' = entries @ [ph_entry prd topics]
            in if ph_MAX_RESULTS \<le> length entries' then (seen', entries')
               else ph_prods (seen', entries') topics prds))"

text \<open>The loop \<open>for url in URLS\<close>, over the URLs paired with the results of their fetches.\<close>

fun ph_urls :: "string set \<times> entry list \<Rightarrow> (string \<times> crawl_result) list \<Rightarrow> string set \<times> entry list" where
  "ph_urls st [] = st"
| "ph_urls st ((url, result) # rest) =
     (if \<not> success result then ph_urls st rest
      else case markdown result of
             None \<Rightarrow> ph_urls st rest
           | Some md \<Rightarrow>
               if md = [] then ph_urls st rest
               else (let st' = ph_prods st (topics_of_url url) (extract_products_from_markdown md)
                     in if ph_MAX_RESULTS \<le> length (snd st') then st'
                        else ph_urls st' rest))"

definition ph_scrape :: "(string \<Rightarrow> crawl_result) \<Rightarrow> entry list" where
  "ph_scrape arun = snd (ph_urls ({}, []) (map (\<lambda>url. (url, arun url)) ph_URLS))"

section \<open>scrape_taaft.py\<close>

subsection \<open>extract_tools_from_markdown\<close>

definition taaft_prefix :: string where
  "taaft_prefix = ''https://theresanaiforthat.com/ai/''"

text \<open>
  The pattern \<open>\[([^\]]+)\]\(https://theresanaiforthat\.com/ai/([a-z0-9-]+(?:-\d+)?)/?\)\<close>
  at the start of the string. Group 2 ends where the run of \<open>[a-z0-9-]\<close> ends, however
  the run is divided between its two parts.
\<close>

definition taaft_match_at :: "string \<Rightarrow> ((string \<times> string) \<times> string) option" where
  "taaft_match_at s =
     (case link_head taaft_prefix s of
        None \<Rightarrow> None
      | Some (g1, g2, s4) \<Rightarrow>
          (case lit '')'' (case lit ''/'' s4 of Some s5 \<Rightarrow> s5 | None \<Rightarrow> s4) of
             None \<Rightarrow> None
           | Some rest \<Rightarrow> Some ((g1, g2), rest)))"

lemma taaft_match_at_length:
  "taaft_match_at s = Some (g, rest) \<Longrightarrow> length rest < length s"
proof -
  assume a: "taaft_match_at s = Some (g, rest)"
  then obtain g1 g2 s4 where h: "link_head taaft_prefix s = Some (g1, g2, s4)"
    by (auto simp: taaft_match_at_def split: option.splits)
  from h have "length s4 < length s"
    by (cases s) (auto simp: link_head_def split: option.splits if_splits
        dest!: run1_length lit_length)
  moreover from a h have "length rest \<le> length s4"
    by (auto simp: taaft_match_at_def split: option.splits dest!: lit_length)
  ultimately show ?thesis by simp
qed

function taaft_finditer :: "string \<Rightarrow> (string \<times> string) list" where
  "taaft_finditer [] = []"
| "taaft_finditer (c # cs) =
     (case taaft_match_at (c # cs) of
        Some (g, rest) \<Rightarrow> g # taaft_finditer rest
      | None \<Rightarrow> taaft_finditer cs)"
  by pat_completeness auto
termination
  by (relation "measure length") (auto dest: taaft_match_at_length)

text \<open>The patterns \<open>^[\d,.\s]+$\<close>, \<open>^Free\<close> with \<open>re.IGNORECASE\<close>, and \<open>^\$\<close>.\<close>

definition is_stats :: "string \<Rightarrow> bool" where
  "is_stats text =
     (case run1 (\<lambda>c. is_digit c \<or> c = CHR '','' \<or> c = CHR ''.'' \<or> is_space c) text of
        None \<Rightarrow> False
      | Some (w, r) \<Rightarrow> at_end r)"

definition is_free :: "string \<Rightarrow> bool" where
  "is_free text = (lower (take 4 text) = ''free'')"

definition is_price :: "string \<Rightarrow> bool" where
  "is_price text = startswith text ''$''"

text \<open>
  \<open>re.sub(r'\s+v[\d.]+\s*$', '', text)\<close>. \<open>version_at\<close> is the pattern at the start of
  the string; a match runs to the end of the string, so the leftmost one is the only one.
\<close>

definition version_at :: "string \<Rightarrow> bool" where
  "version_at s =
     (case run1 is_space s of
        None \<Rightarrow> False
      | Some (ws, r1) \<Rightarrow>
          (case lit ''v'' r1 of
             None \<Rightarrow> False
           | Some r2 \<Rightarrow>
               (case run1 (\<lambda>c. is_digit c \<or> c = CHR ''.'') r2 of
                  None \<Rightarrow> False
                | Some (ds, r3) \<Rightarrow> at_end (dropWhile is_space r3))))"

fun sub_version :: "string \<Rightarrow> string" where
  "sub_version [] = []"
| "sub_version (c # cs) = (if version_at (c # cs) then [] else c # sub_version cs)"

record tool =
  t_name :: string
  t_slug :: string
  t_url :: string

definition taaft_noise :: "string \<Rightarrow> bool" where
  "taaft_noise text =
     (is_stats text \<or> is_free text \<or> is_price text \<or> length text < 2 \<or> 100 < length text)"

definition taaft_step :: "(string \<times> tool) list \<Rightarrow> string \<times> string \<Rightarrow> (string \<times> tool) list" where
  "taaft_step tools m =
     (case m of (g1, slug0) \<Rightarrow>
        (let text = strip g1
         in if slug0 \<in> fst ` set tools then tools
            else if taaft_noise text then tools
            else (let name0 = strip (sub_version text)
                  in if name0 = [] then tools
                     else tools @ [(slug0, \<lparr> t_name = name0, t_slug = slug0,
                                            t_url = taaft_prefix @ slug0 @ ''/'' \<rparr>)])))"

definition extract_tools_from_markdown :: "string \<Rightarrow> tool list" where
  "extract_tools_from_markdown md = map snd (foldl taaft_step [] (taaft_finditer md))"

subsection \<open>scrape\<close>

definition taaft_MAX_RESULTS :: nat where
  "taaft_MAX_RESULTS = 100"

definition taaft_URLS :: "string list" where
  "taaft_URLS = [''https://theresanaiforthat.com/'',
                 ''https://theresanaiforthat.com/s/ai-agents/'']"

definition taaft_entry :: "tool \<Rightarrow> entry" where
  "taaft_entry t =
     (let name0 = t_name t;
          category0 = categorize_by_keywords name0 None None;
          category1 = (if category0 = ''framework'' then ''ai-agent'' else category0)
      in \<lparr> slug = slugify name0,
           name = name0,
           tagline = take 160 (''AI tool: '' @ name0),
           description = ''Discovered on There'' @ [CHR 0x27] @ ''s An AI For That: '' @ name0,
           category = category1,
           tags = [''ai''],
           sourceUrl = t_url t,
           runtime = None,
           stars = 0,
           submittedBy = ''crawl4ai-taaft'' \<rparr>)"

fun taaft_tools :: "string set \<times> entry list \<Rightarrow> tool list \<Rightarrow> string set \<times> entry list" where
  "taaft_tools st [] = st"
| "taaft_tools (seen, entries) (t # ts) =
     (if t_slug t \<in> seen then taaft_tools (seen, entries) ts
      else (let seen' = insert (t_slug t) seen;
                entries' = entries @ [taaft_entry t]
            in if taaft_MAX_RESULTS \<le> length entries' then (seen', entries')
               else taaft_tools (seen', entries') ts))"

fun taaft_urls :: "string set \<times> entry list \<Rightarrow> crawl_result list \<Rightarrow> string set \<times> entry list" where
  "taaft_urls st [] = st"
| "taaft_urls st (result # results) =
     (if \<not> success result then taaft_urls st results
      else case markdown result of
             None \<Rightarrow> taaft_urls st results
           | Some md \<Rightarrow>
               if md = [] then taaft_urls st results
               else (let st' = taaft_tools st (extract_tools_from_markdown md)
                     in if taaft_MAX_RESULTS \<le> length (snd st') then st'
                        else taaft_urls st' results))"

definition taaft_scrape :: "(string \<Rightarrow> crawl_result) \<Rightarrow> entry list" where
  "taaft_scrape arun = snd (taaft_urls ({}, []) (map arun taaft_URLS))"

section \<open>Properties of common.py\<close>

subsection \<open>Characters\<close>

lemma code_hyphen: "code CHR ''-'' = 45"
  by (simp add: code_def)

lemma hyphen_not_alnum: "\<not> is_slug_alnum CHR ''-''"
  by (simp add: is_slug_alnum_def is_lower_az_def is_digit_def code_hyphen)

subsection \<open>The category cascade\<close>

text \<open>
  C1. \<open>categorize_by_keywords\<close> is a total function without an error branch: no
  operation of its body can raise on a string, an optional list of strings and an
  optional string. For every such input its value is one element of
  \<open>VALID_CATEGORIES\<close>, a list of nine distinct categories.
\<close>

theorem categorize_by_keywords_valid:
  "categorize_by_keywords text topics language \<in> set VALID_CATEGORIES
   \<and> length VALID_CATEGORIES = 9 \<and> distinct VALID_CATEGORIES"
  by (simp add: categorize_by_keywords_def VALID_CATEGORIES_def Let_def)

text \<open>
  C3. The rules are tried in the order of the source and the first one that matches
  decides: a rule gives its category exactly when no earlier rule matches, whatever the
  later rules would say. The two examples of the specification: the MCP rule wins over the
  DeFi keywords of the first text, and the second text is a DeFi tool.
\<close>

theorem categorize_first_match_wins:
  "categorize_by_keywords ''mcp server for defi swaps'' None None = ''mcp-server''
   \<and> categorize_by_keywords ''a yield-farming defi protocol'' None None = ''defi-tool''
   \<and> (let d = lower text; T = topic_set_of topics; l = lang_of language;
           c = categorize_by_keywords text topics language;
           ai = (rule_ai_text d \<or> rule_ai_topic T);
           defi = (rule_defi_text d \<or> rule_defi_topic T);
           web3 = (rule_web3_text d \<or> rule_web3_topic T);
           dev = (rule_devtool_topic T \<or> rule_devtool_text d)
        in (rule_mcp d T \<longrightarrow> c = ''mcp-server'')
         \<and> (\<not> rule_mcp d T \<and> ai \<longrightarrow> c = ''ai-agent'')
         \<and> (\<not> rule_mcp d T \<and> \<not> ai \<and> defi \<longrightarrow> c = ''defi-tool'')
         \<and> (\<not> rule_mcp d T \<and> \<not> ai \<and> \<not> defi \<and> web3 \<longrightarrow> c = ''web3-tool'')
         \<and> (\<not> rule_mcp d T \<and> \<not> ai \<and> \<not> defi \<and> \<not> web3 \<and> rule_infra d l \<longrightarrow> c = ''infra'')
         \<and> (\<not> rule_mcp d T \<and> \<not> ai \<and> \<not> defi \<and> \<not> web3 \<and> \<not> rule_infra d l \<and> dev
              \<longrightarrow> c = ''developer-tool'')
         \<and> (\<not> rule_mcp d T \<and> \<not> ai \<and> \<not> defi \<and> \<not> web3 \<and> \<not> rule_infra d l \<and> \<not> dev
              \<longrightarrow> c = ''framework''))"
proof -
  have 1: "categorize_by_keywords ''mcp server for defi swaps'' None None = ''mcp-server''"
    by code_simp
  have 2: "categorize_by_keywords ''a yield-farming defi protocol'' None None = ''defi-tool''"
    by code_simp
  show ?thesis
    unfolding Let_def
    by (intro conjI 1 2) (simp_all add: categorize_by_keywords_def Let_def)
qed

theorem categorize_first_match_wins_witness:
  "rule_mcp (lower ''mcp server for defi swaps'') (topic_set_of None)
   \<and> rule_defi_text (lower ''mcp server for defi swaps'')
   \<and> categorize_by_keywords ''mcp server for defi swaps'' None None = ''mcp-server''
   \<and> rule_ai_topic (topic_set_of (Some [''LLM'']))
   \<and> categorize_by_keywords ''ethereum wallet'' (Some [''LLM'']) None = ''ai-agent''
   \<and> rule_defi_text (lower ''a yield-farming defi protocol'')
   \<and> categorize_by_keywords ''a yield-farming defi protocol'' None None = ''defi-tool''
   \<and> rule_web3_text (lower ''ethereum wallet'')
   \<and> categorize_by_keywords ''ethereum wallet'' None (Some ''Dockerfile'') = ''web3-tool''
   \<and> rule_infra (lower ''hello world'') (lang_of (Some ''Dockerfile''))
   \<and> categorize_by_keywords ''hello world'' (Some [''API'']) (Some ''Dockerfile'') = ''infra''
   \<and> rule_devtool_topic (topic_set_of (Some [''API'']))
   \<and> categorize_by_keywords ''hello world'' (Some [''API'']) None = ''developer-tool''
   \<and> categorize_by_keywords ''hello world'' None None = ''framework''"
proof -
  note W = categorize_first_match_wins [unfolded Let_def]
  have a1: "rule_mcp (lower ''mcp server for defi swaps'') (topic_set_of None)"
    and a2: "rule_defi_text (lower ''mcp server for defi swaps'')"
    by code_simp+
  have b0: "\<not> rule_mcp (lower ''ethereum wallet'') (topic_set_of (Some [''LLM'']))"
    and b1: "rule_ai_topic (topic_set_of (Some [''LLM'']))"
    by code_simp+
  have c0: "\<not> rule_mcp (lower ''a yield-farming defi protocol'') (topic_set_of None)"
    and c1: "\<not> rule_ai_text (lower ''a yield-farming defi protocol'')"
    and c2: "\<not> rule_ai_topic (topic_set_of None)"
    and c3: "rule_defi_text (lower ''a yield-farming defi protocol'')"
    by code_simp+
  have d0: "\<not> rule_mcp (lower ''ethereum wallet'') (topic_set_of None)"
    and d1: "\<not> rule_ai_text (lower ''ethereum wallet'')"
    and d2: "\<not> rule_defi_text (lower ''ethereum wallet'')"
    and d3: "\<not> rule_defi_topic (topic_set_of None)"
    and d4: "rule_web3_text (lower ''ethereum wallet'')"
    by code_simp+
  have e0: "\<not> rule_mcp (lower ''hello world'') (topic_set_of (Some [''API'']))"
    and e1: "\<not> rule_ai_text (lower ''hello world'')"
    and e2: "\<not> rule_ai_topic (topic_set_of (Some [''API'']))"
    and e3: "\<not> rule_defi_text (lower ''hello world'')"
    and e4: "\<not> rule_defi_topic (topic_set_of (Some [''API'']))"
    and e5: "\<not> rule_web3_text (lower ''hello world'')"
    and e6: "\<not> rule_web3_topic (topic_set_of (Some [''API'']))"
    and e7: "rule_infra (lower ''hello world'') (lang_of (Some ''Dockerfile''))"
    and e8: "\<not> rule_infra (lower ''hello world'') (lang_of None)"
    and e9: "rule_devtool_topic (topic_set_of (Some [''API'']))"
    by code_simp+
  have f0: "\<not> rule_mcp (lower ''hello world'') (topic_set_of None)"
    and f1: "\<not> rule_web3_topic (topic_set_of None)"
    and f2: "\<not> rule_devtool_topic (topic_set_of None)"
    and f3: "\<not> rule_devtool_text (lower ''hello world'')"
    by code_simp+
  have r1: "categorize_by_keywords ''mcp server for defi swaps'' None None = ''mcp-server''"
    using W [of "''mcp server for defi swaps''" None None] a1 by blast
  have r2: "categorize_by_keywords ''ethereum wallet'' (Some [''LLM'']) None = ''ai-agent''"
    using W [of "''ethereum wallet''" "Some [''LLM'']" None] b0 b1 by blast
  have r3: "categorize_by_keywords ''a yield-farming defi protocol'' None None = ''defi-tool''"
    using W [of "''a yield-farming defi protocol''" None None] c0 c1 c2 c3 by blast
  have r4: "categorize_by_keywords ''ethereum wallet'' None (Some ''Dockerfile'') = ''web3-tool''"
    using W [of "''ethereum wallet''" None "Some ''Dockerfile''"] d0 d1 c2 d2 d3 d4 by blast
  have r5: "categorize_by_keywords ''hello world'' (Some [''API'']) (Some ''Dockerfile'') = ''infra''"
    using W [of "''hello world''" "Some [''API'']" "Some ''Dockerfile''"] e0 e1 e2 e3 e4 e5 e6 e7
    by blast
  have r6: "categorize_by_keywords ''hello world'' (Some [''API'']) None = ''developer-tool''"
    using W [of "''hello world''" "Some [''API'']" None] e0 e1 e2 e3 e4 e5 e6 e8 e9 by blast
  have r7: "categorize_by_keywords ''hello world'' None None = ''framework''"
    using W [of "''hello world''" None None] f0 e1 c2 e3 d3 e5 f1 e8 f2 f3 by blast
  show ?thesis
    using a1 a2 r1 b1 r2 c3 r3 d4 r4 e7 r5 e9 r6 r7 by blast
qed

subsection \<open>slugify\<close>

text \<open>
  C2. The hyphens are stripped before the slug is cut to 100 characters, so the cut can
  end on a hyphen: for 99 letters, a space and one more letter the slug is the 99 letters
  followed by a hyphen.
\<close>

theorem slugify_trailing_hyphen:
  "slugify (replicate 99 CHR ''a'' @ '' b'') = replicate 99 CHR ''a'' @ ''-''
   \<and> last (slugify (replicate 99 CHR ''a'' @ '' b'')) = CHR ''-''"
  by code_simp

section \<open>Properties of scrape_github_trending.py\<close>

subsection \<open>parse_stars\<close>

lemma parse_stars_examples:
  "parse_stars ''12.5k'' = Inr 12500 \<and> parse_stars ''1,234'' = Inr 1234
   \<and> parse_stars '''' = Inr 0 \<and> parse_stars ''garbage'' = Inr 0"
  by (intro conjI; code_simp)

text \<open>
  C7. The four examples hold (\<open>parse_stars_examples\<close>). The general part does not: on
  \<open>"infk"\<close> the suffix is cut, \<open>float("inf")\<close> is infinity, and \<open>int\<close> of infinity raises
  \<open>OverflowError\<close>, which \<open>except ValueError\<close> does not catch.
\<close>

theorem parse_stars_inf_raises:
  "parse_stars ''infk'' = Inl OverflowError"
  by code_simp

subsection \<open>The loops of scrape\<close>

lemma gh_rows_built:
  "gh_rows (seen, es) rows = Inr (seen', es') \<Longrightarrow>
   \<exists>krs. es' = es @ gh_built krs \<and> distinct (map fst krs)
         \<and> set (map fst krs) \<inter> seen = {} \<and> seen' = seen \<union> set (map fst krs)"
proof (induction rows arbitrary: seen es)
  case Nil
  then show ?case by (auto simp: gh_built_def intro: exI [of _ "[]"])
next
  case (Cons row rows)
  show ?case
  proof (cases "gh_key row = [] \<or> gh_key row \<in> seen")
    case True
    with Cons.prems have "gh_rows (seen, es) rows = Inr (seen', es')" by (auto simp: Let_def)
    from Cons.IH [OF this] show ?thesis .
  next
    case False
    then obtain n where n: "parse_stars (or_empty (stars_text row)) = Inr n"
      using Cons.prems by (cases "parse_stars (or_empty (stars_text row))") (auto simp: Let_def)
    let ?s = "insert (gh_key row) seen" and ?e = "es @ [gh_entry (gh_key row) row n]"
    show ?thesis
    proof (cases "gh_MAX_RESULTS \<le> length ?e")
      case True
      with False n Cons.prems have "seen' = ?s" "es' = ?e" by (auto simp: Let_def)
      with False show ?thesis
        by (intro exI [of _ "[(gh_key row, row, n)]"]) (auto simp: gh_built_def)
    next
      case F2: False
      with False n Cons.prems have "gh_rows (?s, ?e) rows = Inr (seen', es')"
        by (auto simp: Let_def)
      from Cons.IH [OF this] obtain krs where k: "es' = ?e @ gh_built krs"
        "distinct (map fst krs)" "set (map fst krs) \<inter> ?s = {}" "seen' = ?s \<union> set (map fst krs)"
        by blast
      with False show ?thesis
        by (intro exI [of _ "(gh_key row, row, n) # krs"]) (auto simp: gh_built_def)
    qed
  qed
qed

lemma gh_rows_length:
  "gh_rows (seen, es) rows = Inr (seen', es') \<Longrightarrow> length es < gh_MAX_RESULTS \<Longrightarrow>
   length es' \<le> gh_MAX_RESULTS"
  by (induction rows arbitrary: seen es)
     (auto simp: Let_def split: if_splits sum.splits)

lemma gh_keys_skip:
  "gh_key row = [] \<or> gh_key row \<in> seen \<Longrightarrow> gh_keys (row # rows) - seen = gh_keys rows - seen"
  by (auto simp: gh_keys_def)

lemma gh_keys_new:
  "gh_key row \<noteq> [] \<Longrightarrow> gh_key row \<notin> seen \<Longrightarrow>
   card (gh_keys (row # rows) - seen) = Suc (card (gh_keys rows - insert (gh_key row) seen))"
proof -
  assume a: "gh_key row \<noteq> []" "gh_key row \<notin> seen"
  have f: "finite (gh_keys rows - insert (gh_key row) seen)" by (simp add: gh_keys_def)
  from a have "gh_keys (row # rows) - seen = insert (gh_key row) (gh_keys rows - insert (gh_key row) seen)"
    by (auto simp: gh_keys_def)
  with f show ?thesis by simp
qed

lemma gh_rows_exact:
  "list_all stars_ok rows \<Longrightarrow> length es < gh_MAX_RESULTS \<Longrightarrow>
   \<exists>seen' es'. gh_rows (seen, es) rows = Inr (seen', es')
      \<and> length es' = min gh_MAX_RESULTS (length es + card (gh_keys rows - seen))"
proof (induction rows arbitrary: seen es)
  case Nil
  then show ?case by (simp add: gh_keys_def)
next
  case (Cons row rows)
  from Cons.prems have ok: "list_all stars_ok rows" and r: "stars_ok row" by simp_all
  show ?case
  proof (cases "gh_key row = [] \<or> gh_key row \<in> seen")
    case True
    then have "gh_rows (seen, es) (row # rows) = gh_rows (seen, es) rows" by (auto simp: Let_def)
    with Cons.IH [OF ok Cons.prems(2), of seen] gh_keys_skip [OF True, of rows] show ?thesis by simp
  next
    case False
    from r obtain n where n: "parse_stars (or_empty (stars_text row)) = Inr n"
      by (auto simp: stars_ok_def split: sum.splits)
    let ?s = "insert (gh_key row) seen" and ?e = "es @ [gh_entry (gh_key row) row n]"
    from False have c: "card (gh_keys (row # rows) - seen) = Suc (card (gh_keys rows - ?s))"
      by (simp add: gh_keys_new)
    show ?thesis
    proof (cases "gh_MAX_RESULTS \<le> length ?e")
      case True
      with False n have "gh_rows (seen, es) (row # rows) = Inr (?s, ?e)" by (simp add: Let_def)
      with True c Cons.prems(2) show ?thesis by simp
    next
      case F2: False
      with False n have "gh_rows (seen, es) (row # rows) = gh_rows (?s, ?e) rows"
        by (simp add: Let_def)
      moreover from F2 have "length ?e < gh_MAX_RESULTS" by simp
      from Cons.IH [OF ok this, of ?s] obtain seen' es' where
        "gh_rows (?s, ?e) rows = Inr (seen', es')"
        "length es' = min gh_MAX_RESULTS (length ?e + card (gh_keys rows - ?s))" by blast
      ultimately show ?thesis using c by simp
    qed
  qed
qed


lemma gh_urls_built:
  "gh_urls (seen, es) results = Inr (seen', es') \<Longrightarrow>
   \<exists>krs. es' = es @ gh_built krs \<and> distinct (map fst krs)
         \<and> set (map fst krs) \<inter> seen = {} \<and> seen' = seen \<union> set (map fst krs)"
proof (induction results arbitrary: seen es)
  case Nil
  then show ?case by (auto simp: gh_built_def intro: exI [of _ "[]"])
next
  case (Cons result results)
  show ?case
  proof (cases "success result \<and> extracted_content result \<noteq> None")
    case False
    with Cons.prems have "gh_urls (seen, es) results = Inr (seen', es')"
      by (auto split: option.splits)
    from Cons.IH [OF this] show ?thesis .
  next
    case True
    then obtain rows where rows: "success result" "extracted_content result = Some rows" by auto
    with Cons.prems obtain s1 e1 where 1: "gh_rows (seen, es) rows = Inr (s1, e1)"
      by (cases "gh_rows (seen, es) rows") auto
    from gh_rows_built [OF 1] obtain k1 where k1: "e1 = es @ gh_built k1"
      "distinct (map fst k1)" "set (map fst k1) \<inter> seen = {}" "s1 = seen \<union> set (map fst k1)"
      by blast
    show ?thesis
    proof (cases "gh_MAX_RESULTS \<le> length e1")
      case True
      with rows 1 Cons.prems have "seen' = s1" "es' = e1" by auto
      with k1 show ?thesis by blast
    next
      case False
      with rows 1 Cons.prems have "gh_urls (s1, e1) results = Inr (seen', es')" by auto
      from Cons.IH [OF this] obtain k2 where k2: "es' = e1 @ gh_built k2"
        "distinct (map fst k2)" "set (map fst k2) \<inter> s1 = {}" "seen' = s1 \<union> set (map fst k2)"
        by blast
      with k1 show ?thesis
        by (intro exI [of _ "k1 @ k2"]) (auto simp: gh_built_def)
    qed
  qed
qed

lemma gh_urls_length:
  "gh_urls (seen, es) results = Inr (seen', es') \<Longrightarrow> length es < gh_MAX_RESULTS \<Longrightarrow>
   length es' \<le> gh_MAX_RESULTS"
proof (induction results arbitrary: seen es)
  case Nil
  then show ?case by simp
next
  case (Cons result results)
  show ?case
  proof (cases "success result \<and> extracted_content result \<noteq> None")
    case False
    with Cons.prems have "gh_urls (seen, es) results = Inr (seen', es')"
      by (auto split: option.splits)
    from Cons.IH [OF this Cons.prems(2)] show ?thesis .
  next
    case True
    then obtain rows where rows: "success result" "extracted_content result = Some rows" by auto
    with Cons.prems obtain s1 e1 where 1: "gh_rows (seen, es) rows = Inr (s1, e1)"
      by (cases "gh_rows (seen, es) rows") auto
    from gh_rows_length [OF 1 Cons.prems(2)] have l: "length e1 \<le> gh_MAX_RESULTS" .
    show ?thesis
    proof (cases "gh_MAX_RESULTS \<le> length e1")
      case True
      with rows 1 Cons.prems have "es' = e1" by auto
      with l show ?thesis by simp
    next
      case False
      with rows 1 Cons.prems have "gh_urls (s1, e1) results = Inr (seen', es')" by auto
      from Cons.IH [OF this] False show ?thesis by simp
    qed
  qed
qed

lemma gh_urls_exact:
  assumes "length es < gh_MAX_RESULTS" "success result" "extracted_content result = Some rows"
    "list_all stars_ok rows" "gh_MAX_RESULTS \<le> length es + card (gh_keys rows - seen)"
  shows "\<exists>seen' es'. gh_urls (seen, es) (result # results) = Inr (seen', es')
           \<and> length es' = gh_MAX_RESULTS"
proof -
  from gh_rows_exact [OF assms(4) assms(1), of seen] obtain s1 e1 where
    1: "gh_rows (seen, es) rows = Inr (s1, e1)"
    and 2: "length e1 = min gh_MAX_RESULTS (length es + card (gh_keys rows - seen))" by blast
  from 2 assms(5) have "length e1 = gh_MAX_RESULTS" by simp
  with 1 assms(2,3) show ?thesis by simp
qed

lemma gh_MAX_RESULTS_pos: "0 < gh_MAX_RESULTS"
  by (simp add: gh_MAX_RESULTS_def)

lemma parse_stars_empty: "parse_stars [] = Inr 0"
  by code_simp

text \<open>
  What the loops do about the cap when no star text makes \<open>parse_stars\<close> raise: a run
  that returns has at most \<open>MAX_RESULTS\<close> entries, and from any state of the loop below
  the cap a blob that offers enough new non-empty keys to reach the cap ends the run with
  exactly \<open>MAX_RESULTS\<close> entries.
\<close>

lemma gh_scrape_cap_when_stars_parse:
  "(gh_scrape arun = Inr es \<longrightarrow> length es \<le> gh_MAX_RESULTS)
   \<and> (length es0 < gh_MAX_RESULTS \<and> success result \<and> extracted_content result = Some rows
        \<and> list_all stars_ok rows \<and> gh_MAX_RESULTS \<le> length es0 + card (gh_keys rows - seen0)
      \<longrightarrow> (\<exists>seen' es'. gh_urls (seen0, es0) (result # results) = Inr (seen', es')
             \<and> length es' = gh_MAX_RESULTS))
   \<and> (success (arun ''https://github.com/trending?since=daily'')
        \<and> extracted_content (arun ''https://github.com/trending?since=daily'') = Some rows
        \<and> list_all stars_ok rows \<and> gh_MAX_RESULTS \<le> card (gh_keys rows)
      \<longrightarrow> (\<exists>es'. gh_scrape arun = Inr es' \<and> length es' = gh_MAX_RESULTS))"
proof (intro conjI impI)
  assume "gh_scrape arun = Inr es"
  then obtain seen' where "gh_urls ({}, []) (map arun gh_URLS) = Inr (seen', es)"
    by (cases "gh_urls ({}, []) (map arun gh_URLS)") (auto simp: gh_scrape_def)
  from gh_urls_length [OF this] gh_MAX_RESULTS_pos show "length es \<le> gh_MAX_RESULTS" by simp
next
  assume "length es0 < gh_MAX_RESULTS \<and> success result \<and> extracted_content result = Some rows
        \<and> list_all stars_ok rows \<and> gh_MAX_RESULTS \<le> length es0 + card (gh_keys rows - seen0)"
  then show "\<exists>seen' es'. gh_urls (seen0, es0) (result # results) = Inr (seen', es')
             \<and> length es' = gh_MAX_RESULTS"
    using gh_urls_exact by blast
next
  let ?u = "''https://github.com/trending?since=daily''"
  assume a: "success (arun ?u) \<and> extracted_content (arun ?u) = Some rows
        \<and> list_all stars_ok rows \<and> gh_MAX_RESULTS \<le> card (gh_keys rows)"
  have "\<exists>seen' es'. gh_urls ({}, []) (arun ?u # map arun (tl gh_URLS)) = Inr (seen', es')
           \<and> length es' = gh_MAX_RESULTS"
    using a gh_MAX_RESULTS_pos by (intro gh_urls_exact [of "[]" _ rows "{}"]) auto
  moreover have "map arun gh_URLS = arun ?u # map arun (tl gh_URLS)"
    by (simp add: gh_URLS_def)
  ultimately show "\<exists>es'. gh_scrape arun = Inr es' \<and> length es' = gh_MAX_RESULTS"
    by (auto simp: gh_scrape_def)
qed

text \<open>
  C5. The run does not always produce \<open>MAX_RESULTS\<close> records from a blob that offers that
  many candidates: the blob below has 50 rows with 50 distinct non-empty keys, and the star
  text of its first row is \<open>"infk"\<close>. \<open>parse_stars\<close> raises \<open>OverflowError\<close> on that row,
  the exception leaves \<open>scrape\<close>, and no record is produced.
\<close>

theorem gh_scrape_cap_raises:
  "gh_MAX_RESULTS = 50
   \<and> card (gh_keys
        (\<lparr> repo_path = Some ''/o/r0'', row_description = None, row_language = None,
            stars_text = Some ''infk'' \<rparr>
         # map (\<lambda>i. \<lparr> repo_path = Some (''/o/'' @ replicate i CHR ''a''), row_description = None,
                        row_language = None, stars_text = Some ''12.5k'' \<rparr>) [1..<50])) = 50
   \<and> gh_scrape (\<lambda>url. \<lparr> success = True, markdown = None, extracted_content = Some
        (\<lparr> repo_path = Some ''/o/r0'', row_description = None, row_language = None,
            stars_text = Some ''infk'' \<rparr>
         # map (\<lambda>i. \<lparr> repo_path = Some (''/o/'' @ replicate i CHR ''a''), row_description = None,
                        row_language = None, stars_text = Some ''12.5k'' \<rparr>) [1..<50]) \<rparr>)
       = Inl OverflowError"
  by code_simp


section \<open>Properties of scrape_producthunt.py\<close>

subsection \<open>extract_products_from_markdown\<close>

text \<open>
  C8. On the blob of the specification the extractor returns exactly one product, with
  name \<open>Acme\<close>, tagline \<open>Fix your bugs fast\<close> and slug \<open>acme\<close>; group 1 of the name
  pattern ends after the four characters of \<open>Acme\<close>, before the capitalised word \<open>Fix\<close>.
\<close>

theorem extract_products_acme:
  "extract_products_from_markdown
     ''[Acme Fix your bugs fast](https://www.producthunt.com/products/acme)''
   = [\<lparr> p_name = ''Acme'', p_tagline = ''Fix your bugs fast'',
         p_url = ''https://www.producthunt.com/products/acme'', p_slug = ''acme'' \<rparr>]
   \<and> name_split ''Acme Fix your bugs fast'' = Some 4"
  by code_simp







text \<open>
  C9. A match whose link text is a review count, a stoplisted label, or too short or too
  long adds nothing to \<open>products\<close>, and the loop goes on with the next match; the
  same holds in the tool extractor for its checks and for a name that is empty after
  the version suffix is removed. The extractors are total functions: no match makes them
  fail. On the blob of the specification the result is empty.
\<close>

theorem noise_rejected:
  "extract_products_from_markdown
     ''[1.4K reviews](https://www.producthunt.com/products/acme/reviews)'' = []
   \<and> (is_review_count (strip g1)
        \<or> lower (strip g1) \<in> set [''view all'', ''see all'', ''reviews'', ''promoted'', '''']
        \<or> length (strip g1) < 2 \<or> 200 < length (strip g1)
      \<longrightarrow> ph_step products (g1, url, s) = products
          \<and> foldl ph_step products ((g1, url, s) # ms) = foldl ph_step products ms)
   \<and> (is_stats (strip g1) \<or> is_free (strip g1) \<or> is_price (strip g1)
        \<or> length (strip g1) < 2 \<or> 100 < length (strip g1)
        \<or> strip (sub_version (strip g1)) = []
      \<longrightarrow> taaft_step tools (g1, s) = tools
          \<and> foldl taaft_step tools ((g1, s) # ts) = foldl taaft_step tools ts)"
proof (intro conjI impI)
  show "extract_products_from_markdown
     ''[1.4K reviews](https://www.producthunt.com/products/acme/reviews)'' = []"
    by code_simp
next
  assume "is_review_count (strip g1)
        \<or> lower (strip g1) \<in> set [''view all'', ''see all'', ''reviews'', ''promoted'', '''']
        \<or> length (strip g1) < 2 \<or> 200 < length (strip g1)"
  then have "ph_noise (strip g1)" by (simp add: ph_noise_def)
  then show 1: "ph_step products (g1, url, s) = products" by (simp add: ph_step_def)
  then show "foldl ph_step products ((g1, url, s) # ms) = foldl ph_step products ms" by simp
next
  assume a: "is_stats (strip g1) \<or> is_free (strip g1) \<or> is_price (strip g1)
        \<or> length (strip g1) < 2 \<or> 100 < length (strip g1)
        \<or> strip (sub_version (strip g1)) = []"
  then show 1: "taaft_step tools (g1, s) = tools"
    by (auto simp: taaft_step_def taaft_noise_def Let_def)
  then show "foldl taaft_step tools ((g1, s) # ts) = foldl taaft_step tools ts" by simp
qed

theorem noise_rejected_witness:
  "is_review_count (strip ''1.4K reviews'')
   \<and> ph_step [] (''1.4K reviews'', ''https://www.producthunt.com/products/acme'', ''acme'') = []
   \<and> length (strip '' x '') < 2
   \<and> foldl taaft_step [] [('' x '', ''x-1''), (''Tool v1.2'', ''tool'')]
       = foldl taaft_step [] [(''Tool v1.2'', ''tool'')]
   \<and> map t_name (extract_tools_from_markdown
         ''[ x ](https://theresanaiforthat.com/ai/x-1/) [Tool v1.2](https://theresanaiforthat.com/ai/tool/)'')
       = [''Tool'']"
proof -
  have a: "is_review_count (strip ''1.4K reviews'')" by code_simp
  have b: "length (strip '' x '') < 2" by code_simp
  from noise_rejected [of "''1.4K reviews''" "[]" "''https://www.producthunt.com/products/acme''"
      "''acme''"] a
  have c: "ph_step [] (''1.4K reviews'', ''https://www.producthunt.com/products/acme'', ''acme'') = []"
    by blast
  from noise_rejected [of "'' x ''" _ _ "''x-1''" _ "[]" "[(''Tool v1.2'', ''tool'')]"] b
  have d: "foldl taaft_step [] [('' x '', ''x-1''), (''Tool v1.2'', ''tool'')]
       = foldl taaft_step [] [(''Tool v1.2'', ''tool'')]"
    by blast
  have e: "map t_name (extract_tools_from_markdown
         ''[ x ](https://theresanaiforthat.com/ai/x-1/) [Tool v1.2](https://theresanaiforthat.com/ai/tool/)'')
       = [''Tool'']"
    by code_simp
  show ?thesis by (intro conjI a b c d e)
qed

subsection \<open>The loops of scrape\<close>

lemma slug_ph_entry: "slug (ph_entry p t) = p_slug p"
  by (simp add: ph_entry_def)

lemma ph_prods_new:
  "ph_prods (seen, es) topics prds = (seen', es') \<Longrightarrow>
   \<exists>new. es' = es @ new \<and> (\<forall>e\<in>set new. \<exists>p t. e = ph_entry p t) \<and> distinct (map slug new)
         \<and> slug ` set new \<inter> seen = {} \<and> seen' = seen \<union> slug ` set new"
proof (induction prds arbitrary: seen es)
  case Nil
  then show ?case by auto
next
  case (Cons p prds)
  show ?case
  proof (cases "p_slug p \<in> seen")
    case True
    with Cons.prems have "ph_prods (seen, es) topics prds = (seen', es')" by simp
    from Cons.IH [OF this] show ?thesis .
  next
    case False
    let ?s = "insert (p_slug p) seen" and ?e = "es @ [ph_entry p topics]"
    show ?thesis
    proof (cases "ph_MAX_RESULTS \<le> length ?e")
      case True
      with False Cons.prems have "seen' = ?s" "es' = ?e" by (auto simp: Let_def)
      with False show ?thesis
        by (intro exI [of _ "[ph_entry p topics]"]) (auto simp: slug_ph_entry)
    next
      case F2: False
      with False Cons.prems have "ph_prods (?s, ?e) topics prds = (seen', es')"
        by (auto simp: Let_def)
      from Cons.IH [OF this] obtain new where n: "es' = ?e @ new"
        "\<forall>e\<in>set new. \<exists>p t. e = ph_entry p t" "distinct (map slug new)"
        "slug ` set new \<inter> ?s = {}" "seen' = ?s \<union> slug ` set new"
        by blast
      with False show ?thesis
        by (intro exI [of _ "ph_entry p topics # new"]) (auto simp: slug_ph_entry)
    qed
  qed
qed

lemma ph_urls_new:
  "ph_urls (seen, es) blobs = (seen', es') \<Longrightarrow>
   \<exists>new. es' = es @ new \<and> (\<forall>e\<in>set new. \<exists>p t. e = ph_entry p t) \<and> distinct (map slug new)
         \<and> slug ` set new \<inter> seen = {} \<and> seen' = seen \<union> slug ` set new"
proof (induction blobs arbitrary: seen es)
  case Nil
  then show ?case by auto
next
  case (Cons b blobs)
  obtain url result where b: "b = (url, result)" by (cases b)
  show ?case
  proof (cases "success result \<and> markdown result \<noteq> None \<and> markdown result \<noteq> Some []")
    case False
    with Cons.prems b have "ph_urls (seen, es) blobs = (seen', es')"
      by (auto split: option.splits if_splits)
    from Cons.IH [OF this] show ?thesis .
  next
    case True
    then obtain md where md: "success result" "markdown result = Some md" "md \<noteq> []" by auto
    obtain s1 e1 where 1:
      "ph_prods (seen, es) (topics_of_url url) (extract_products_from_markdown md) = (s1, e1)"
      by (cases "ph_prods (seen, es) (topics_of_url url) (extract_products_from_markdown md)")
    from ph_prods_new [OF 1] obtain n1 where n1: "e1 = es @ n1"
      "\<forall>e\<in>set n1. \<exists>p t. e = ph_entry p t" "distinct (map slug n1)"
      "slug ` set n1 \<inter> seen = {}" "s1 = seen \<union> slug ` set n1"
      by blast
    show ?thesis
    proof (cases "ph_MAX_RESULTS \<le> length e1")
      case True
      with md 1 b Cons.prems have "seen' = s1" "es' = e1" by (auto simp: Let_def)
      with n1 show ?thesis by blast
    next
      case False
      with md 1 b Cons.prems have "ph_urls (s1, e1) blobs = (seen', es')" by (auto simp: Let_def)
      from Cons.IH [OF this] obtain n2 where n2: "es' = e1 @ n2"
        "\<forall>e\<in>set n2. \<exists>p t. e = ph_entry p t" "distinct (map slug n2)"
        "slug ` set n2 \<inter> s1 = {}" "seen' = s1 \<union> slug ` set n2"
        by blast
      with n1 show ?thesis
        by (intro exI [of _ "n1 @ n2"]) auto
    qed
  qed
qed

lemma ph_scrape_entries:
  "\<exists>seen'. ph_urls ({}, []) (map (\<lambda>url. (url, arun url)) ph_URLS) = (seen', ph_scrape arun)"
  by (simp add: ph_scrape_def) (metis prod.collapse)


lemma ph_scrape_built: "e \<in> set (ph_scrape arun) \<Longrightarrow> \<exists>p t. e = ph_entry p t"
  using ph_scrape_entries [of arun] ph_urls_new by fastforce

text \<open>A run of the Product Hunt pipeline never has more than its \<open>MAX_RESULTS\<close> entries.\<close>

lemma ph_prods_length:
  "ph_prods (seen, es) topics prds = (seen', es') \<Longrightarrow> length es < ph_MAX_RESULTS \<Longrightarrow>
   length es' \<le> ph_MAX_RESULTS"
  by (induction prds arbitrary: seen es) (auto simp: Let_def split: if_splits)

lemma ph_urls_length:
  "ph_urls (seen, es) blobs = (seen', es') \<Longrightarrow> length es < ph_MAX_RESULTS \<Longrightarrow>
   length es' \<le> ph_MAX_RESULTS"
proof (induction blobs arbitrary: seen es)
  case Nil
  then show ?case by simp
next
  case (Cons b blobs)
  obtain url result where b: "b = (url, result)" by (cases b)
  show ?case
  proof (cases "success result \<and> markdown result \<noteq> None \<and> markdown result \<noteq> Some []")
    case False
    with Cons.prems b have "ph_urls (seen, es) blobs = (seen', es')"
      by (auto split: option.splits if_splits)
    from Cons.IH [OF this Cons.prems(2)] show ?thesis .
  next
    case True
    then obtain md where md: "success result" "markdown result = Some md" "md \<noteq> []" by auto
    obtain s1 e1 where 1:
      "ph_prods (seen, es) (topics_of_url url) (extract_products_from_markdown md) = (s1, e1)"
      by (cases "ph_prods (seen, es) (topics_of_url url) (extract_products_from_markdown md)")
    from ph_prods_length [OF 1 Cons.prems(2)] have l: "length e1 \<le> ph_MAX_RESULTS" .
    show ?thesis
    proof (cases "ph_MAX_RESULTS \<le> length e1")
      case True
      with md 1 b Cons.prems have "es' = e1" by (auto simp: Let_def)
      with l show ?thesis by simp
    next
      case False
      with md 1 b Cons.prems have "ph_urls (s1, e1) blobs = (seen', es')" by (auto simp: Let_def)
      from Cons.IH [OF this] False show ?thesis by simp
    qed
  qed
qed

lemma ph_scrape_cap: "length (ph_scrape arun) \<le> ph_MAX_RESULTS"
proof -
  obtain s where "ph_urls ({}, []) (map (\<lambda>url. (url, arun url)) ph_URLS) = (s, ph_scrape arun)"
    by (simp add: ph_scrape_def) (metis prod.collapse)
  from ph_urls_length [OF this] show ?thesis by (simp add: ph_MAX_RESULTS_def)
qed

section \<open>Properties of scrape_taaft.py\<close>

lemma taaft_tools_new:
  "taaft_tools (seen, es) ts = (seen', es') \<Longrightarrow>
   \<exists>new. es' = es @ new \<and> (\<forall>e\<in>set new. \<exists>t. e = taaft_entry t) \<and> seen \<subseteq> seen'"
proof (induction ts arbitrary: seen es)
  case Nil
  then show ?case by auto
next
  case (Cons t ts)
  show ?case
  proof (cases "t_slug t \<in> seen")
    case True
    with Cons.prems have "taaft_tools (seen, es) ts = (seen', es')" by simp
    from Cons.IH [OF this] show ?thesis .
  next
    case False
    let ?s = "insert (t_slug t) seen" and ?e = "es @ [taaft_entry t]"
    show ?thesis
    proof (cases "taaft_MAX_RESULTS \<le> length ?e")
      case True
      with False Cons.prems have "seen' = ?s" "es' = ?e" by (auto simp: Let_def)
      then show ?thesis by auto
    next
      case F2: False
      with False Cons.prems have "taaft_tools (?s, ?e) ts = (seen', es')"
        by (auto simp: Let_def)
      from Cons.IH [OF this] obtain new where "es' = ?e @ new"
        "\<forall>e\<in>set new. \<exists>t. e = taaft_entry t" "?s \<subseteq> seen'" by blast
      then show ?thesis
        by (intro exI [of _ "taaft_entry t # new"]) auto
    qed
  qed
qed

lemma taaft_urls_new:
  "taaft_urls (seen, es) results = (seen', es') \<Longrightarrow>
   \<exists>new. es' = es @ new \<and> (\<forall>e\<in>set new. \<exists>t. e = taaft_entry t) \<and> seen \<subseteq> seen'"
proof (induction results arbitrary: seen es)
  case Nil
  then show ?case by auto
next
  case (Cons result results)
  show ?case
  proof (cases "success result \<and> markdown result \<noteq> None \<and> markdown result \<noteq> Some []")
    case False
    with Cons.prems have "taaft_urls (seen, es) results = (seen', es')"
      by (auto split: option.splits if_splits)
    from Cons.IH [OF this] show ?thesis .
  next
    case True
    then obtain md where md: "success result" "markdown result = Some md" "md \<noteq> []" by auto
    obtain s1 e1 where 1: "taaft_tools (seen, es) (extract_tools_from_markdown md) = (s1, e1)"
      by (cases "taaft_tools (seen, es) (extract_tools_from_markdown md)")
    from taaft_tools_new [OF 1] obtain n1 where n1: "e1 = es @ n1"
      "\<forall>e\<in>set n1. \<exists>t. e = taaft_entry t" "seen \<subseteq> s1" by blast
    show ?thesis
    proof (cases "taaft_MAX_RESULTS \<le> length e1")
      case True
      with md 1 Cons.prems have "seen' = s1" "es' = e1" by (auto simp: Let_def)
      with n1 show ?thesis by blast
    next
      case False
      with md 1 Cons.prems have "taaft_urls (s1, e1) results = (seen', es')"
        by (auto simp: Let_def)
      from Cons.IH [OF this] obtain n2 where n2: "es' = e1 @ n2"
        "\<forall>e\<in>set n2. \<exists>t. e = taaft_entry t" "s1 \<subseteq> seen'" by blast
      with n1 show ?thesis
        by (intro exI [of _ "n1 @ n2"]) auto
    qed
  qed
qed

lemma taaft_scrape_built: "e \<in> set (taaft_scrape arun) \<Longrightarrow> \<exists>t. e = taaft_entry t"
proof -
  assume e: "e \<in> set (taaft_scrape arun)"
  obtain s where "taaft_urls ({}, []) (map arun taaft_URLS) = (s, taaft_scrape arun)"
    by (simp add: taaft_scrape_def) (metis prod.collapse)
  from taaft_urls_new [OF this] e show ?thesis by auto
qed

text \<open>Nor does a run of the tool-directory pipeline.\<close>

lemma taaft_tools_length:
  "taaft_tools (seen, es) ts = (seen', es') \<Longrightarrow> length es < taaft_MAX_RESULTS \<Longrightarrow>
   length es' \<le> taaft_MAX_RESULTS"
  by (induction ts arbitrary: seen es) (auto simp: Let_def split: if_splits)

lemma taaft_urls_length:
  "taaft_urls (seen, es) results = (seen', es') \<Longrightarrow> length es < taaft_MAX_RESULTS \<Longrightarrow>
   length es' \<le> taaft_MAX_RESULTS"
proof (induction results arbitrary: seen es)
  case Nil
  then show ?case by simp
next
  case (Cons result results)
  show ?case
  proof (cases "success result \<and> markdown result \<noteq> None \<and> markdown result \<noteq> Some []")
    case False
    with Cons.prems have "taaft_urls (seen, es) results = (seen', es')"
      by (auto split: option.splits if_splits)
    from Cons.IH [OF this Cons.prems(2)] show ?thesis .
  next
    case True
    then obtain md where md: "success result" "markdown result = Some md" "md \<noteq> []" by auto
    obtain s1 e1 where 1: "taaft_tools (seen, es) (extract_tools_from_markdown md) = (s1, e1)"
      by (cases "taaft_tools (seen, es) (extract_tools_from_markdown md)")
    from taaft_tools_length [OF 1 Cons.prems(2)] have l: "length e1 \<le> taaft_MAX_RESULTS" .
    show ?thesis
    proof (cases "taaft_MAX_RESULTS \<le> length e1")
      case True
      with md 1 Cons.prems have "es' = e1" by (auto simp: Let_def)
      with l show ?thesis by simp
    next
      case False
      with md 1 Cons.prems have "taaft_urls (s1, e1) results = (seen', es')"
        by (auto simp: Let_def)
      from Cons.IH [OF this] False show ?thesis by simp
    qed
  qed
qed

lemma taaft_scrape_cap: "length (taaft_scrape arun) \<le> taaft_MAX_RESULTS"
proof -
  obtain s where "taaft_urls ({}, []) (map arun taaft_URLS) = (s, taaft_scrape arun)"
    by (simp add: taaft_scrape_def) (metis prod.collapse)
  from taaft_urls_length [OF this] show ?thesis by (simp add: taaft_MAX_RESULTS_def)
qed

section \<open>Properties of the pipelines\<close>

lemma gh_scrape_built:
  "gh_scrape arun = Inr es \<Longrightarrow> e \<in> set es \<Longrightarrow> \<exists>k r n. e = gh_entry k r n"
proof -
  assume a: "gh_scrape arun = Inr es" and e: "e \<in> set es"
  then obtain seen' where "gh_urls ({}, []) (map arun gh_URLS) = Inr (seen', es)"
    by (cases "gh_urls ({}, []) (map arun gh_URLS)") (auto simp: gh_scrape_def)
  from gh_urls_built [OF this] obtain krs where "es = gh_built krs" by auto
  with e obtain k r n where "e = gh_entry k r n" by (auto simp: gh_built_def)
  then show ?thesis by blast
qed

lemma categorize_seven:
  "categorize_by_keywords text topics language \<in>
     set [''mcp-server'', ''ai-agent'', ''defi-tool'', ''web3-tool'', ''infra'',
          ''developer-tool'', ''framework'']"
  by (simp add: categorize_by_keywords_def Let_def)

lemma categorize_producthunt_not_api: "categorize_producthunt tagline0 topics \<noteq> ''api-service''"
  using categorize_seven [of tagline0 "Some topics" None]
  by (auto simp: categorize_producthunt_def Let_def)

lemma category_gh_entry: "category (gh_entry k r n) \<noteq> ''api-service''"
proof -
  obtain d l where "category (gh_entry k r n) = categorize_by_keywords d None l"
    by (simp add: gh_entry_def Let_def)
  with categorize_seven [of d None l] show ?thesis by auto
qed

lemma category_ph_entry: "category (ph_entry p t) \<noteq> ''api-service''"
  by (simp add: ph_entry_def categorize_producthunt_not_api)

lemma category_taaft_entry: "category (taaft_entry t) \<noteq> ''api-service''"
  using categorize_seven [of "t_name t" None None] by (auto simp: taaft_entry_def Let_def)

text \<open>
  C10. \<open>categorize_by_keywords\<close> returns one of seven categories, never
  \<open>api-service\<close> and never \<open>saas-tool\<close>; and no entry of a run of any of the three
  pipelines has the category \<open>api-service\<close>.
\<close>

theorem never_api_service:
  "categorize_by_keywords text topics language \<in>
     set [''mcp-server'', ''ai-agent'', ''defi-tool'', ''web3-tool'', ''infra'',
          ''developer-tool'', ''framework'']
   \<and> categorize_by_keywords text topics language \<noteq> ''api-service''
   \<and> categorize_by_keywords text topics language \<noteq> ''saas-tool''
   \<and> (gh_scrape arun = Inr es \<longrightarrow> ''api-service'' \<notin> category ` set es)
   \<and> ''api-service'' \<notin> category ` set (ph_scrape arun)
   \<and> ''api-service'' \<notin> category ` set (taaft_scrape arun)"
proof -
  have 1: "categorize_by_keywords text topics language \<in>
     set [''mcp-server'', ''ai-agent'', ''defi-tool'', ''web3-tool'', ''infra'',
          ''developer-tool'', ''framework'']"
    by (rule categorize_seven)
  then have 2: "categorize_by_keywords text topics language \<noteq> ''api-service''"
    and 3: "categorize_by_keywords text topics language \<noteq> ''saas-tool''"
    by auto
  have 4: "''api-service'' \<notin> category ` set es" if "gh_scrape arun = Inr es"
  proof
    assume "''api-service'' \<in> category ` set es"
    then obtain e where e: "e \<in> set es" "category e = ''api-service''" by auto
    from gh_scrape_built [OF that e(1)] obtain k r n where "e = gh_entry k r n" by blast
    with e(2) category_gh_entry show False by simp
  qed
  have 5: "''api-service'' \<notin> category ` set (ph_scrape arun)"
  proof
    assume "''api-service'' \<in> category ` set (ph_scrape arun)"
    then obtain e where e: "e \<in> set (ph_scrape arun)" "category e = ''api-service''" by auto
    from ph_scrape_built [OF e(1)] obtain p t where "e = ph_entry p t" by blast
    with e(2) category_ph_entry show False by simp
  qed
  have 6: "''api-service'' \<notin> category ` set (taaft_scrape arun)"
  proof
    assume "''api-service'' \<in> category ` set (taaft_scrape arun)"
    then obtain e where e: "e \<in> set (taaft_scrape arun)" "category e = ''api-service''" by auto
    from taaft_scrape_built [OF e(1)] obtain t where "e = taaft_entry t" by blast
    with e(2) category_taaft_entry show False by simp
  qed
  from 1 2 3 4 5 6 show ?thesis by blast
qed

theorem never_api_service_witness:
  "(let result = \<lparr> success = True,
                    markdown = Some ''[Acme Fix your bugs fast](https://www.producthunt.com/products/acme)'',
                    extracted_content = Some [\<lparr> repo_path = Some ''/o/r'',
                        row_description = Some ''An API service for payments'',
                        row_language = None, stars_text = Some ''1,234'' \<rparr>] \<rparr>
    in (\<exists>es. gh_scrape (\<lambda>url. result) = Inr es \<and> map category es = [''framework'']
             \<and> ''api-service'' \<notin> category ` set es)
       \<and> map category (ph_scrape (\<lambda>url. result)) = [''ai-agent'']
       \<and> ''api-service'' \<notin> category ` set (ph_scrape (\<lambda>url. result)))"
proof -
  let ?res = "\<lparr> success = True,
                    markdown = Some ''[Acme Fix your bugs fast](https://www.producthunt.com/products/acme)'',
                    extracted_content = Some [\<lparr> repo_path = Some ''/o/r'',
                        row_description = Some ''An API service for payments'',
                        row_language = None, stars_text = Some ''1,234'' \<rparr>] \<rparr>"
  let ?arun = "\<lambda>url::string. ?res"
  note T = never_api_service [of _ _ _ ?arun]
  have "map_sum id (map category) (gh_scrape ?arun) = Inr [''framework'']"
    by code_simp
  then obtain es where es: "gh_scrape ?arun = Inr es" "map category es = [''framework'']"
    by (cases "gh_scrape ?arun") auto
  from T [of _ _ _ es] es(1) have g: "''api-service'' \<notin> category ` set es" by blast
  have a: "\<exists>es. gh_scrape ?arun = Inr es \<and> map category es = [''framework'']
             \<and> ''api-service'' \<notin> category ` set es"
  proof (intro exI conjI)
    show "gh_scrape ?arun = Inr es" by (fact es(1))
    show "map category es = [''framework'']" by (fact es(2))
    show "''api-service'' \<notin> category ` set es" by (fact g)
  qed
  have p: "map category (ph_scrape ?arun) = [''ai-agent'']" by code_simp
  from T have q: "''api-service'' \<notin> category ` set (ph_scrape ?arun)" by blast
  show ?thesis unfolding Let_def by (intro conjI a p q)
qed

lemma tagline_gh_entry: "length (tagline (gh_entry k r n)) \<le> 160"
  by (simp add: gh_entry_def Let_def)

lemma tagline_ph_entry: "length (tagline (ph_entry p t)) \<le> 160"
  by (simp add: ph_entry_def)

lemma tagline_taaft_entry: "length (tagline (taaft_entry t)) \<le> 160"
  by (simp add: taaft_entry_def Let_def)

text \<open>
  C6, as the code has it: the tagline of every entry of every pipeline has at most 160
  characters. The description is not cut anywhere: \<open>description_not_truncated\<close> below
  is a GitHub row whose description of 161 characters is emitted in full.
\<close>

theorem tagline_truncated:
  "(gh_scrape arun = Inr es \<longrightarrow> (\<forall>e\<in>set es. length (tagline e) \<le> 160))
   \<and> (\<forall>e\<in>set (ph_scrape arun). length (tagline e) \<le> 160)
   \<and> (\<forall>e\<in>set (taaft_scrape arun). length (tagline e) \<le> 160)"
proof (intro conjI impI ballI)
  fix e assume "gh_scrape arun = Inr es" "e \<in> set es"
  from gh_scrape_built [OF this] obtain k r n where "e = gh_entry k r n" by blast
  then show "length (tagline e) \<le> 160" by (simp add: tagline_gh_entry)
next
  fix e assume "e \<in> set (ph_scrape arun)"
  from ph_scrape_built [OF this] obtain p t where "e = ph_entry p t" by blast
  then show "length (tagline e) \<le> 160" by (simp add: tagline_ph_entry)
next
  fix e assume "e \<in> set (taaft_scrape arun)"
  from taaft_scrape_built [OF this] obtain t where "e = taaft_entry t" by blast
  then show "length (tagline e) \<le> 160" by (simp add: tagline_taaft_entry)
qed

theorem tagline_truncated_witness:
  "(let result = \<lparr> success = True,
                    markdown = Some ''[Acme Fix your bugs fast](https://www.producthunt.com/products/acme)'',
                    extracted_content = Some [\<lparr> repo_path = Some ''/o/r'',
                        row_description = Some (replicate 161 CHR ''x''),
                        row_language = None, stars_text = None \<rparr>] \<rparr>
    in (\<exists>es. gh_scrape (\<lambda>url. result) = Inr es \<and> map (\<lambda>e. length (tagline e)) es = [160]
             \<and> list_all (\<lambda>e. length (tagline e) \<le> 160) es)
       \<and> map tagline (ph_scrape (\<lambda>url. result)) = [''Fix your bugs fast'']
       \<and> list_all (\<lambda>e. length (tagline e) \<le> 160) (ph_scrape (\<lambda>url. result))
       \<and> list_all (\<lambda>e. length (tagline e) \<le> 160) (taaft_scrape (\<lambda>url. result)))"
proof -
  let ?res = "\<lparr> success = True,
                    markdown = Some ''[Acme Fix your bugs fast](https://www.producthunt.com/products/acme)'',
                    extracted_content = Some [\<lparr> repo_path = Some ''/o/r'',
                        row_description = Some (replicate 161 CHR ''x''),
                        row_language = None, stars_text = None \<rparr>] \<rparr>"
  let ?arun = "\<lambda>url::string. ?res"
  note T = tagline_truncated [of ?arun]
  have "map_sum id (map (\<lambda>e. length (tagline e))) (gh_scrape ?arun) = Inr [160]"
    by code_simp
  then obtain es where es: "gh_scrape ?arun = Inr es" "map (\<lambda>e. length (tagline e)) es = [160]"
    by (cases "gh_scrape ?arun") auto
  from T [of es] es(1) have g: "list_all (\<lambda>e. length (tagline e) \<le> 160) es"
    by (simp add: list_all_iff)
  have a: "\<exists>es. gh_scrape ?arun = Inr es \<and> map (\<lambda>e. length (tagline e)) es = [160]
             \<and> list_all (\<lambda>e. length (tagline e) \<le> 160) es"
  proof (intro exI conjI)
    show "gh_scrape ?arun = Inr es" by (fact es(1))
    show "map (\<lambda>e. length (tagline e)) es = [160]" by (fact es(2))
    show "list_all (\<lambda>e. length (tagline e) \<le> 160) es" by (fact g)
  qed
  have p: "map tagline (ph_scrape ?arun) = [''Fix your bugs fast'']" by code_simp
  from T have q: "list_all (\<lambda>e. length (tagline e) \<le> 160) (ph_scrape ?arun)"
    and r: "list_all (\<lambda>e. length (tagline e) \<le> 160) (taaft_scrape ?arun)"
    by (simp_all only: list_all_iff) blast+
  show ?thesis unfolding Let_def by (intro conjI a p q r)
qed

theorem description_not_truncated:
  "gh_scrape (\<lambda>url. \<lparr> success = True, markdown = None,
       extracted_content = Some [\<lparr> repo_path = Some ''/o/r'',
                                   row_description = Some (replicate 161 CHR ''x''),
                                   row_language = None, stars_text = None \<rparr>] \<rparr>)
   = Inr [\<lparr> slug = ''o-r'', name = ''o/r'', tagline = replicate 160 CHR ''x'',
            description = replicate 161 CHR ''x'', category = ''framework'', tags = [],
            sourceUrl = ''https://github.com/o/r'', runtime = None, stars = 0,
            submittedBy = ''crawl4ai-github-trending'' \<rparr>]
   \<and> length (replicate 161 CHR ''x'') = 161"
  by code_simp






end
